theory Spec2Isabelle
  imports Main "HOL-Library.Sublist"
begin

section \<open>Strings of the Go standard library, as the package calls them\<close>

text \<open>
  A Go string is a sequence of bytes; it is modelled as \<^typ>\<open>string\<close>, one
  \<^typ>\<open>char\<close> per byte. Every pattern the package searches for is ASCII, and an
  ASCII byte never occurs inside a multi-byte UTF-8 sequence, so searching bytes finds the
  same positions as Go finds.
\<close>

definition dq :: string where
  "dq = [CHR 0x22]"

definition sq :: string where
  "sq = [CHR 0x27]"

definition nl :: string where
  "nl = [CHR 0x0A]"

definition tab :: string where
  "tab = [CHR 0x09]"

definition HasPrefix :: "string \<Rightarrow> string \<Rightarrow> bool" where
  "HasPrefix s pre = (take (length pre) s = pre)"

definition HasSuffix :: "string \<Rightarrow> string \<Rightarrow> bool" where
  "HasSuffix s suf = (length suf \<le> length s \<and> drop (length s - length suf) s = suf)"

definition TrimSuffix :: "string \<Rightarrow> string \<Rightarrow> string" where
  "TrimSuffix s suf = (if HasSuffix s suf then take (length s - length suf) s else s)"

text \<open>\<open>strings.Index\<close>: the position of the first occurrence; \<open>None\<close> is Go's \<open>-1\<close>.\<close>

fun Index :: "string \<Rightarrow> string \<Rightarrow> nat option" where
  "Index [] sub = (if sub = [] then Some 0 else None)"
| "Index (c # cs) sub =
     (if HasPrefix (c # cs) sub then Some 0 else map_option Suc (Index cs sub))"

definition Contains :: "string \<Rightarrow> string \<Rightarrow> bool" where
  "Contains s sub = (Index s sub \<noteq> None)"

lemma HasPrefix_length:
  assumes "HasPrefix s pre"
  shows "length pre \<le> length s"
proof -
  have "length (take (length pre) s) = length pre"
    using assms by (simp add: HasPrefix_def)
  then show ?thesis by simp
qed

lemma Index_bound: "Index s sub = Some i \<Longrightarrow> i + length sub \<le> length s"
proof (induction s arbitrary: i)
  case Nil
  then show ?case by (simp split: if_splits)
next
  case (Cons c cs)
  show ?case
  proof (cases "HasPrefix (c # cs) sub")
    case True
    with HasPrefix_length [OF True] Cons.prems show ?thesis by simp
  next
    case False
    with Cons.prems obtain j where "Index cs sub = Some j" "i = Suc j" by auto
    with Cons.IH show ?thesis by fastforce
  qed
qed

text \<open>
  \<open>strings.Split(s, sep)\<close> and \<open>strings.SplitN(s, sep, 2)\<close>. The package passes the
  one-byte separators \<open>}\<close>, \<open>{\<close> and \<open>,\<close>; Go's special case of an empty separator
  (the string exploded into its characters) is not modelled and returns \<open>[s]\<close>.
\<close>

function Split :: "string \<Rightarrow> string \<Rightarrow> string list" where
  "Split s sep =
     (case (if sep = [] then None else Index s sep) of
        None \<Rightarrow> [s]
      | Some i \<Rightarrow> take i s # Split (drop (i + length sep) s) sep)"
  by pat_completeness auto
termination
proof (relation "measure (\<lambda>(s, sep). length s)")
  show "wf (measure (\<lambda>(s, sep). length s))" by simp
next
  fix s sep :: string and i :: nat
  assume "(if sep = [] then None else Index s sep) = Some i"
  then have ne: "sep \<noteq> []" and ix: "Index s sep = Some i"
    by (auto split: if_splits)
  from ne have "0 < length sep" by simp
  with Index_bound [OF ix] have "0 < length s" "0 < i + length sep" by linarith+
  then show "((drop (i + length sep) s, sep), (s, sep)) \<in> measure (\<lambda>(s, sep). length s)"
    by simp
qed

declare Split.simps [simp del]

definition SplitN2 :: "string \<Rightarrow> string \<Rightarrow> string list" where
  "SplitN2 s sep =
     (case (if sep = [] then None else Index s sep) of
        None \<Rightarrow> [s]
      | Some i \<Rightarrow> [take i s, drop (i + length sep) s])"

fun Join :: "string list \<Rightarrow> string \<Rightarrow> string" where
  "Join [] sep = []"
| "Join [x] sep = x"
| "Join (x # y # ys) sep = x @ sep @ Join (y # ys) sep"

text \<open>
  \<open>strings.TrimSpace\<close> removes the leading and trailing characters for which
  \<open>unicode.IsSpace\<close> holds: the six ASCII ones and the UTF-8 encodings of U+0085, U+00A0,
  U+1680, U+2000 to U+200A, U+2028, U+2029, U+202F, U+205F and U+3000. Each is matched as
  a byte sequence, at the front of the string and then at its end.
\<close>

definition unicodeSpaces :: "string list" where
  "unicodeSpaces =
     [[CHR 0x09], [CHR 0x0A], [CHR 0x0B], [CHR 0x0C], [CHR 0x0D], [CHR 0x20],
      [CHR 0xC2, CHR 0x85], [CHR 0xC2, CHR 0xA0], [CHR 0xE1, CHR 0x9A, CHR 0x80],
      [CHR 0xE2, CHR 0x80, CHR 0x80], [CHR 0xE2, CHR 0x80, CHR 0x81],
      [CHR 0xE2, CHR 0x80, CHR 0x82], [CHR 0xE2, CHR 0x80, CHR 0x83],
      [CHR 0xE2, CHR 0x80, CHR 0x84], [CHR 0xE2, CHR 0x80, CHR 0x85],
      [CHR 0xE2, CHR 0x80, CHR 0x86], [CHR 0xE2, CHR 0x80, CHR 0x87],
      [CHR 0xE2, CHR 0x80, CHR 0x88], [CHR 0xE2, CHR 0x80, CHR 0x89],
      [CHR 0xE2, CHR 0x80, CHR 0x8A], [CHR 0xE2, CHR 0x80, CHR 0xA8],
      [CHR 0xE2, CHR 0x80, CHR 0xA9], [CHR 0xE2, CHR 0x80, CHR 0xAF],
      [CHR 0xE2, CHR 0x81, CHR 0x9F], [CHR 0xE3, CHR 0x80, CHR 0x80]]"

text \<open>The number of bytes of the space character that \<open>s\<close> starts with; 0 when it starts
  with none.\<close>

fun spaceWidth :: "string list \<Rightarrow> string \<Rightarrow> nat" where
  "spaceWidth [] s = 0"
| "spaceWidth (w # ws) s = (if HasPrefix s w then length w else spaceWidth ws s)"

function trimLeftSpaces :: "string list \<Rightarrow> string \<Rightarrow> string" where
  "trimLeftSpaces ws [] = []"
| "trimLeftSpaces ws (c # cs) =
     (if spaceWidth ws (c # cs) = 0 then c # cs
      else trimLeftSpaces ws (drop (spaceWidth ws (c # cs)) (c # cs)))"
  by pat_completeness auto
termination
  by (relation "measure (\<lambda>(ws, s). length s)") auto

definition TrimSpace :: "string \<Rightarrow> string" where
  "TrimSpace s =
     rev (trimLeftSpaces (map rev unicodeSpaces) (rev (trimLeftSpaces unicodeSpaces s)))"

section \<open>The selector-scoping engine\<close>

text \<open>The constants \<open>ElementTypeNormal = 0\<close>, \<open>ElementTypeSingle = 1\<close> and
  \<open>ElementTypeContainer = 2\<close> of \<open>skingo.go\<close>.\<close>

datatype ElementType = ElementTypeNormal | ElementTypeSingle | ElementTypeContainer

text \<open>The loop of \<open>scopedCSS\<close> over \<open>rootClasses\<close>: it sets \<open>useDirectScope\<close> and breaks at
  the first root class equal to \<open>className\<close>.\<close>

fun inRootClasses :: "string list \<Rightarrow> string \<Rightarrow> bool" where
  "inRootClasses [] className = False"
| "inRootClasses (rootClass # rest) className =
     (if rootClass = className then True else inRootClasses rest className)"

text \<open>The body of the loop over the selectors of one rule (lines 306 to 350), for a
  selector that is already trimmed and not empty.\<close>

definition scopeSelector ::
  "string \<Rightarrow> string \<Rightarrow> string list \<Rightarrow> ElementType \<Rightarrow> string \<Rightarrow> string" where
  "scopeSelector scopeClass rootElementTag rootClasses elementType selector =
     (if selector = rootElementTag then selector @ ''.'' @ scopeClass
      else if HasPrefix selector ''.'' then
        (let className = drop 1 selector;
             useDirectScope =
               (if elementType = ElementTypeSingle then True
                else inRootClasses rootClasses className)
         in if useDirectScope then ''.'' @ scopeClass @ selector
            else ''.'' @ scopeClass @ '' '' @ selector)
      else if HasPrefix selector '':'' then
        (if rootElementTag \<noteq> [] then rootElementTag @ ''.'' @ scopeClass @ selector
         else ''.'' @ scopeClass @ selector)
      else if Contains selector '' '' \<or> Contains selector ''>'' \<or>
              Contains selector ''+'' \<or> Contains selector ''~'' then
        ''.'' @ scopeClass @ '' '' @ selector
      else ''.'' @ scopeClass @ '' '' @ selector)"

fun scopeSelectorList ::
  "string \<Rightarrow> string \<Rightarrow> string list \<Rightarrow> ElementType \<Rightarrow> string list \<Rightarrow> string list" where
  "scopeSelectorList scopeClass rootElementTag rootClasses elementType [] = []"
| "scopeSelectorList scopeClass rootElementTag rootClasses elementType (selector # rest) =
     (if TrimSpace selector = [] then
        scopeSelectorList scopeClass rootElementTag rootClasses elementType rest
      else
        scopeSelector scopeClass rootElementTag rootClasses elementType (TrimSpace selector)
          # scopeSelectorList scopeClass rootElementTag rootClasses elementType rest)"

text \<open>The loop over the rule blocks; the string it returns is what the
  \<open>strings.Builder\<close> holds at the end.\<close>

fun scopedBlocks ::
  "string \<Rightarrow> string \<Rightarrow> string list \<Rightarrow> ElementType \<Rightarrow> string list \<Rightarrow> string" where
  "scopedBlocks scopeClass rootElementTag rootClasses elementType [] = []"
| "scopedBlocks scopeClass rootElementTag rootClasses elementType (block # rest) =
     (if TrimSpace block = [] then
        scopedBlocks scopeClass rootElementTag rootClasses elementType rest
      else
        (case SplitN2 block ''{'' of
           [selectors, declarations] \<Rightarrow>
             Join (scopeSelectorList scopeClass rootElementTag rootClasses elementType
                     (Split selectors '','')) '', ''
               @ '' {'' @ declarations @ ''}'' @ nl
               @ scopedBlocks scopeClass rootElementTag rootClasses elementType rest
         | _ \<Rightarrow> scopedBlocks scopeClass rootElementTag rootClasses elementType rest))"

definition scopedCSS ::
  "string \<Rightarrow> string \<Rightarrow> string \<Rightarrow> string list \<Rightarrow> ElementType \<Rightarrow> string" where
  "scopedCSS css scopeClass rootElementTag rootClasses elementType =
     scopedBlocks scopeClass rootElementTag rootClasses elementType (Split css ''}'')"

text \<open>\<open>containedScopedCSS\<close>: the same two loops, every selector prefixed.\<close>

fun containedSelectorList :: "string \<Rightarrow> string list \<Rightarrow> string list" where
  "containedSelectorList scopeClass [] = []"
| "containedSelectorList scopeClass (selector # rest) =
     (if TrimSpace selector = [] then containedSelectorList scopeClass rest
      else (''.'' @ scopeClass @ '' '' @ TrimSpace selector)
             # containedSelectorList scopeClass rest)"

fun containedBlocks :: "string \<Rightarrow> string list \<Rightarrow> string" where
  "containedBlocks scopeClass [] = []"
| "containedBlocks scopeClass (block # rest) =
     (if TrimSpace block = [] then containedBlocks scopeClass rest
      else
        (case SplitN2 block ''{'' of
           [selectors, declarations] \<Rightarrow>
             Join (containedSelectorList scopeClass (Split selectors '','')) '', ''
               @ '' {'' @ declarations @ ''}'' @ nl
               @ containedBlocks scopeClass rest
         | _ \<Rightarrow> containedBlocks scopeClass rest))"

definition containedScopedCSS :: "string \<Rightarrow> string \<Rightarrow> string" where
  "containedScopedCSS css scopeClass = containedBlocks scopeClass (Split css ''}'')"

section \<open>The patterns of \<open>skingo.go\<close>\<close>

text \<open>
  Go's \<open>regexp\<close> returns the leftmost match and, among the matches that start there, the
  one a backtracking search finds first (greedy operators try the longest repetition
  first, \<open>.*?\<close> the shortest). Each pattern of the package is written out as the function
  that computes this match. In a pattern, \<open>\s\<close> is one of tab, newline, form feed, carriage
  return and space.
\<close>

definition reSpace :: "char \<Rightarrow> bool" where
  "reSpace c = (c = CHR 0x09 \<or> c = CHR 0x0A \<or> c = CHR 0x0C \<or> c = CHR 0x0D \<or> c = CHR '' '')"

definition isLetter :: "char \<Rightarrow> bool" where
  "isLetter c = (let n = (of_char c :: nat) in (65 \<le> n \<and> n \<le> 90) \<or> (97 \<le> n \<and> n \<le> 122))"

definition isAlnum :: "char \<Rightarrow> bool" where
  "isAlnum c = (let n = (of_char c :: nat) in isLetter c \<or> (48 \<le> n \<and> n \<le> 57))"

definition notGt :: "char \<Rightarrow> bool" where
  "notGt c = (c \<noteq> CHR ''>'')"

definition isQuote :: "char \<Rightarrow> bool" where
  "isQuote c = (c = CHR 0x22 \<or> c = CHR 0x27)"

text \<open>\<open>(?s)<template([^>]*)>(.*?)</template>\<close> and \<open>(?s)<style([^>]*)>(.*?)</style>\<close>: the
  attributes run to the first \<open>>\<close>, the body to the first closing tag after it. The result
  is the pair of the two groups.\<close>

definition matchBlockAt :: "string \<Rightarrow> string \<Rightarrow> string \<Rightarrow> (string \<times> string) option" where
  "matchBlockAt opening closing s =
     (if HasPrefix s opening then
        (let r = drop (length opening) s
         in case dropWhile notGt r of
              [] \<Rightarrow> None
            | _ # body \<Rightarrow>
                (case Index body closing of
                   None \<Rightarrow> None
                 | Some k \<Rightarrow> Some (takeWhile notGt r, take k body)))
      else None)"

fun findBlock :: "string \<Rightarrow> string \<Rightarrow> string \<Rightarrow> (string \<times> string) option" where
  "findBlock opening closing [] = matchBlockAt opening closing []"
| "findBlock opening closing (c # cs) =
     (case matchBlockAt opening closing (c # cs) of
        Some m \<Rightarrow> Some m
      | None \<Rightarrow> findBlock opening closing cs)"

definition htmlRegex :: "string \<Rightarrow> (string \<times> string) option" where
  "htmlRegex s = findBlock ''<template'' ''</template>'' s"

definition cssRegex :: "string \<Rightarrow> (string \<times> string) option" where
  "cssRegex s = findBlock ''<style'' ''</style>'' s"

text \<open>\<open>(?s)<script>(.*?)</script>\<close>, with its one group.\<close>

fun jsRegex :: "string \<Rightarrow> string option" where
  "jsRegex [] = None"
| "jsRegex (c # cs) =
     (if HasPrefix (c # cs) ''<script>'' then
        (case Index (drop 8 (c # cs)) ''</script>'' of
           Some k \<Rightarrow> Some (take k (drop 8 (c # cs)))
         | None \<Rightarrow> jsRegex cs)
      else jsRegex cs)"

text \<open>\<open>^\s*<([a-zA-Z][a-zA-Z0-9]*)([^>]*)>\<close>: the tag name and the attribute text.\<close>

definition firstTagRegex :: "string \<Rightarrow> (string \<times> string) option" where
  "firstTagRegex s =
     (case dropWhile reSpace s of
        c1 # c2 # r \<Rightarrow>
          (if c1 = CHR ''<'' \<and> isLetter c2 then
             (case dropWhile notGt (dropWhile isAlnum r) of
                [] \<Rightarrow> None
              | _ # _ \<Rightarrow> Some (c2 # takeWhile isAlnum r, takeWhile notGt (dropWhile isAlnum r)))
           else None)
      | _ \<Rightarrow> None)"

text \<open>\<open>class\s*=\s*["']([^"']*)["']\<close>: the group of the leftmost match.\<close>

definition matchClassAt :: "string \<Rightarrow> string option" where
  "matchClassAt s =
     (if HasPrefix s ''class'' then
        (case dropWhile reSpace (drop 5 s) of
           c # r \<Rightarrow>
             (if c = CHR ''='' then
                (case dropWhile reSpace r of
                   q # v \<Rightarrow>
                     (if isQuote q then
                        (case dropWhile (\<lambda>x. \<not> isQuote x) v of
                           [] \<Rightarrow> None
                         | _ # _ \<Rightarrow> Some (takeWhile (\<lambda>x. \<not> isQuote x) v))
                      else None)
                 | [] \<Rightarrow> None)
              else None)
         | [] \<Rightarrow> None)
      else None)"

fun classRegex :: "string \<Rightarrow> string option" where
  "classRegex [] = None"
| "classRegex (c # cs) =
     (case matchClassAt (c # cs) of Some v \<Rightarrow> Some v | None \<Rightarrow> classRegex cs)"

text \<open>\<open></\s*TAG\s*>\s*$\<close>, where \<open>TAG\<close> is the quoted tag name (letters and digits, which
  \<open>regexp.QuoteMeta\<close> leaves as they are): is there a match anywhere in \<open>s\<close>?\<close>

definition matchCloseTagAt :: "string \<Rightarrow> string \<Rightarrow> bool" where
  "matchCloseTagAt tagName s =
     (HasPrefix s ''</'' \<and>
      (let r = dropWhile reSpace (drop 2 s)
       in HasPrefix r tagName \<and>
          (case dropWhile reSpace (drop (length tagName) r) of
             [] \<Rightarrow> False
           | c # rest \<Rightarrow> c = CHR ''>'' \<and> dropWhile reSpace rest = [])))"

fun closeTagMatch :: "string \<Rightarrow> string \<Rightarrow> bool" where
  "closeTagMatch tagName [] = False"
| "closeTagMatch tagName (c # cs) =
     (if matchCloseTagAt tagName (c # cs) then True else closeTagMatch tagName cs)"

text \<open>\<open>openTagRegex.ReplaceAllString(s, "")\<close> with \<open>^\s*<[^>]+>\<close>: the pattern is anchored, so
  at most the opening tag at the front is removed.\<close>

definition stripOpenTag :: "string \<Rightarrow> string" where
  "stripOpenTag s =
     (case dropWhile reSpace s of
        [] \<Rightarrow> s
      | c # r \<Rightarrow>
          (if c = CHR ''<'' \<and> takeWhile notGt r \<noteq> [] then
             (case dropWhile notGt r of [] \<Rightarrow> s | _ # rest \<Rightarrow> rest)
           else s))"

text \<open>\<open>ReplaceAllString(s, "")\<close> with \<open></\s*[^>]+>\s*$\<close>: the leftmost match runs to the end
  of the text, so what is left is the text before it.\<close>

definition matchAnyCloseAt :: "string \<Rightarrow> bool" where
  "matchAnyCloseAt s =
     (HasPrefix s ''</'' \<and> takeWhile notGt (drop 2 s) \<noteq> [] \<and>
      (case dropWhile notGt (drop 2 s) of
         [] \<Rightarrow> False
       | _ # rest \<Rightarrow> dropWhile reSpace rest = []))"

fun stripCloseTag :: "string \<Rightarrow> string" where
  "stripCloseTag [] = []"
| "stripCloseTag (c # cs) = (if matchAnyCloseAt (c # cs) then [] else c # stripCloseTag cs)"

section \<open>More of \<open>strings\<close>\<close>

text \<open>\<open>strings.ReplaceAll(s, old, new)\<close> and \<open>strings.Replace(s, old, new, 1)\<close> for a
  non-empty \<open>old\<close>, which is all the package passes (with an empty \<open>old\<close> the model
  returns \<open>s\<close>, where Go inserts \<open>new\<close> around every character).\<close>

function ReplaceAll :: "string \<Rightarrow> string \<Rightarrow> string \<Rightarrow> string" where
  "ReplaceAll [] old new = []"
| "ReplaceAll (c # cs) old new =
     (if old \<noteq> [] \<and> HasPrefix (c # cs) old then
        new @ ReplaceAll (drop (length old) (c # cs)) old new
      else c # ReplaceAll cs old new)"
  by pat_completeness auto
termination
  by (relation "measure (\<lambda>(s, old, new). length s)") auto

definition Replace1 :: "string \<Rightarrow> string \<Rightarrow> string \<Rightarrow> string" where
  "Replace1 s old new =
     (case (if old = [] then None else Index s old) of
        None \<Rightarrow> s
      | Some i \<Rightarrow> take i s @ new @ drop (i + length old) s)"

text \<open>\<open>strings.Fields\<close>: the maximal runs of characters that are not \<open>unicode.IsSpace\<close>.
  \<open>cur\<close> is the field being read.\<close>

function fieldsFrom :: "string \<Rightarrow> string \<Rightarrow> string list" where
  "fieldsFrom cur [] = (if cur = [] then [] else [cur])"
| "fieldsFrom cur (c # cs) =
     (if spaceWidth unicodeSpaces (c # cs) = 0 then fieldsFrom (cur @ [c]) cs
      else (if cur = [] then [] else [cur])
             @ fieldsFrom [] (drop (spaceWidth unicodeSpaces (c # cs) - 1) cs))"
  by pat_completeness auto
termination
  by (relation "measure (\<lambda>(cur, s). length s)") auto

definition Fields :: "string \<Rightarrow> string list" where
  "Fields s = fieldsFrom [] s"

text \<open>\<open>filepath.Base\<close> and \<open>filepath.Ext\<close>, with \<open>/\<close> as the path separator.\<close>

definition Base :: "string \<Rightarrow> string" where
  "Base path =
     (if path = [] then ''.''
      else
        (let stripped = rev (dropWhile (\<lambda>c. c = CHR ''/'') (rev path));
             element = rev (takeWhile (\<lambda>c. c \<noteq> CHR ''/'') (rev stripped))
         in if element = [] then ''/'' else element))"

definition Ext :: "string \<Rightarrow> string" where
  "Ext path =
     (let element = takeWhile (\<lambda>c. c \<noteq> CHR ''/'') (rev path)
      in if CHR ''.'' \<in> set element
         then CHR ''.'' # rev (takeWhile (\<lambda>c. c \<noteq> CHR ''.'') element)
         else [])"

section \<open>Compiling a component: \<open>parseFile\<close>\<close>

record Template =
  Name :: string
  HTML :: string
  CSS :: string
  JS :: string
  scopeClass :: string

definition uniqueOpenToken :: string where
  "uniqueOpenToken = ''___GO_TEMPLATE_OPEN___''"

definition uniqueCloseToken :: string where
  "uniqueCloseToken = ''___GO_TEMPLATE_CLOSE___''"

text \<open>\<open>generateScopeClass\<close>: the first eight characters of \<open>s-\<close> followed by the MD5 digest
  of the name in hexadecimal. The digest (\<open>crypto/md5\<close>) is a parameter.\<close>

definition generateScopeClass :: "(string \<Rightarrow> string) \<Rightarrow> string \<Rightarrow> string" where
  "generateScopeClass md5hex name = take 8 (''s-'' @ md5hex name)"

text \<open>The local variables that lines 165 to 203 of \<open>parseFile\<close> set from \<open>safeContent\<close>.\<close>

record rootInfo =
  hasRootElement :: bool
  isSingleElement :: bool
  isRootContainer :: bool
  rootTagName :: string
  rootClasses :: "string list"

definition analyzeRoot :: "string \<Rightarrow> rootInfo" where
  "analyzeRoot safeContent =
     (case firstTagRegex safeContent of
        None \<Rightarrow>
          \<lparr>hasRootElement = False, isSingleElement = False, isRootContainer = False,
           rootTagName = [], rootClasses = []\<rparr>
      | Some (tagName, rootAttributes) \<Rightarrow>
          (let classes = (case classRegex rootAttributes of
                            Some classStr \<Rightarrow> Fields classStr
                          | None \<Rightarrow> [])
           in if closeTagMatch tagName safeContent then
                (let innerContent = stripCloseTag (stripOpenTag safeContent)
                 in if \<not> Contains innerContent ''<'' then
                      \<lparr>hasRootElement = True, isSingleElement = True, isRootContainer = False,
                       rootTagName = tagName, rootClasses = classes\<rparr>
                    else
                      \<lparr>hasRootElement = True, isSingleElement = False, isRootContainer = True,
                       rootTagName = tagName, rootClasses = classes\<rparr>)
              else
                \<lparr>hasRootElement = False, isSingleElement = False, isRootContainer = False,
                 rootTagName = tagName, rootClasses = classes\<rparr>))"

text \<open>The loop of lines 224 to 235: the index of the first \<open>>\<close> met at brace depth 0;
  \<open>None\<close> is \<open>lastPos = -1\<close>.\<close>

fun findTagEnd :: "int \<Rightarrow> nat \<Rightarrow> string \<Rightarrow> nat option" where
  "findTagEnd depth i [] = None"
| "findTagEnd depth i (char # rest) =
     (if char = CHR ''{'' then findTagEnd (depth + 1) (Suc i) rest
      else if char = CHR ''}'' then findTagEnd (depth - 1) (Suc i) rest
      else if char = CHR ''>'' \<and> depth = 0 then Some i
      else findTagEnd depth (Suc i) rest)"

text \<open>Lines 216 to 240: adding the scope class to the markup.\<close>

definition injectScopeClass :: "string \<Rightarrow> string \<Rightarrow> string" where
  "injectScopeClass html sc =
     (if Contains html (''class='' @ dq) then
        Replace1 html (''class='' @ dq) (''class='' @ dq @ sc @ '' '')
      else if Contains html (''class='' @ sq) then
        Replace1 html (''class='' @ sq) (''class='' @ sq @ sc @ '' '')
      else if Contains html ''class={{'' then
        Replace1 html ''class={{'' (''class='' @ dq @ sc @ '' {{'')
      else
        (case findTagEnd 0 0 html of
           None \<Rightarrow> html
         | Some lastPos \<Rightarrow>
             take lastPos html @ '' class='' @ dq @ sc @ dq @ drop lastPos html))"

text \<open>Lines 243 to 250.\<close>

definition elementTypeOf :: "rootInfo \<Rightarrow> bool \<Rightarrow> ElementType" where
  "elementTypeOf root unwrap =
     (if isSingleElement root \<or> unwrap then ElementTypeSingle
      else if isRootContainer root then ElementTypeContainer
      else ElementTypeNormal)"

text \<open>Lines 161 and 162: the delimiters \<open>{{\<close> and \<open>}}\<close> replaced by the two tokens.\<close>

definition maskDelimiters :: "string \<Rightarrow> string" where
  "maskDelimiters trimmedContent =
     ReplaceAll (ReplaceAll trimmedContent ''{{'' uniqueOpenToken) ''}}'' uniqueCloseToken"

text \<open>Lines 150 to 263: what \<open>parseFile\<close> does to the template \<open>t\<close> (its name and scope class
  set) for the text \<open>content\<close> of the file.\<close>

definition scopeTemplate :: "string \<Rightarrow> Template \<Rightarrow> Template" where
  "scopeTemplate content t =
     (case htmlRegex content of
        None \<Rightarrow> t
      | Some (templateAttrs, templateContent) \<Rightarrow>
          (let trimmedContent = TrimSpace templateContent;
               unwrap = Contains templateAttrs ''unwrap'';
               safeContent = maskDelimiters trimmedContent;
               root = analyzeRoot safeContent;
               css = (case cssRegex content of Some (attrs, body) \<Rightarrow> body | None \<Rightarrow> [])
           in if css = [] then t\<lparr>HTML := trimmedContent\<rparr>
              else if unwrap \<or> hasRootElement root then
                (if hasRootElement root then
                   t\<lparr>HTML := injectScopeClass trimmedContent (scopeClass t),
                     CSS := scopedCSS css (scopeClass t) (rootTagName root) (rootClasses root)
                              (elementTypeOf root unwrap)\<rparr>
                 else
                   t\<lparr>HTML := ''<div class='' @ dq @ scopeClass t @ dq @ '' style='' @ dq
                               @ ''display:contents'' @ dq @ ''>'' @ trimmedContent @ ''</div>'',
                     CSS := containedScopedCSS css (scopeClass t)\<rparr>)
              else
                t\<lparr>HTML := ''<div class='' @ dq @ scopeClass t @ dq @ ''>'' @ trimmedContent
                            @ ''</div>'',
                  CSS := containedScopedCSS css (scopeClass t)\<rparr>))"

section \<open>Values and the markup evaluator\<close>

text \<open>
  A value of Go's \<open>interface{}\<close> as the package inspects it: \<open>nil\<close>, a string, an integer or a
  \<open>map[string]interface{}\<close> (an association list; the first entry of a key counts).
\<close>

datatype val = VNil | VStr string | VInt int | VMap "(string \<times> val) list"

datatype error = Error string | Panic string

text \<open>
  The evaluator itself (\<open>html/template\<close>) is not part of the package. It is modelled by the
  actions through which a compiled template reaches the package: literal text, printing an
  expression, a call of \<open>comp\<close>, a call of \<open>_register_template\<close>, and an action that
  fails. An expression is a literal, a field of the data (a key of the map passed as
  data), or a call of \<open>param\<close> or \<open>paramOr\<close>. How html/template formats and escapes a
  printed value is not modelled: a string prints as it is, an integer in decimal.
\<close>

datatype expr = Lit val | Field string | Param int | ParamOr int expr

datatype node =
    Text string
  | Print expr
  | Comp string "expr list"
  | RegisterTemplate string
  | Fail string

record Layout =
  layoutHTML :: string
  layoutTmpl :: "node list option"

text \<open>\<open>compCall\<close>, the frame type declared in \<open>ParseDirs\<close>.\<close>

record compCall =
  Args :: "val list"
  callName :: string

text \<open>
  The template set. \<open>masterTmpl\<close> maps a template name to its compiled body; \<open>compStack\<close> is
  the variable of \<open>ParseDirs\<close> that the functions \<open>param\<close>, \<open>paramOr\<close> and \<open>comp\<close> capture:
  there is one per call of \<open>ParseDirs\<close>, not one per render. The mutexes and the function
  maps are left out.
\<close>

record TemplateSet =
  templates :: "string \<rightharpoonup> Template"
  layout :: "Layout option"
  layoutName :: string
  masterTmpl :: "string \<rightharpoonup> node list"
  templateHTML :: "string \<rightharpoonup> string"
  usedTemplates :: "string set"
  isolatedCache :: "string \<rightharpoonup> node list"
  compStack :: "compCall list"

section \<open>The shell: \<open>parseLayoutFile\<close>\<close>

definition styleTag :: string where
  "styleTag = nl @ tab @ ''<style>{{ .CSS }}</style>'' @ nl"

definition scriptTag :: string where
  "scriptTag = nl @ tab @ ''<script>{{ .JS }}</script>'' @ nl"

definition parseLayoutFile :: "TemplateSet \<Rightarrow> string \<Rightarrow> error + TemplateSet" where
  "parseLayoutFile ts content =
     (case Index content ''</head>'' of
        None \<Rightarrow> Inl (Error ''layout template must contain </head> tag'')
      | Some headCloseIndex \<Rightarrow>
          (let html = take headCloseIndex content @ styleTag @ drop headCloseIndex content
           in case Index html ''</body>'' of
                None \<Rightarrow> Inl (Error ''layout template must contain </body> tag'')
              | Some bodyCloseIndex \<Rightarrow>
                  Inr (ts\<lparr>layout :=
                        Some \<lparr>layoutHTML = take bodyCloseIndex html @ scriptTag
                                              @ drop bodyCloseIndex html,
                              layoutTmpl = None\<rparr>\<rparr>)))"

text \<open>\<open>parseFile\<close>. \<open>fs\<close> is the file system as \<open>os.ReadFile\<close> sees it: the text of each
  file that can be read.\<close>

definition parseFile ::
  "(string \<Rightarrow> string) \<Rightarrow> (string \<rightharpoonup> string) \<Rightarrow> TemplateSet \<Rightarrow> string \<Rightarrow> error + TemplateSet" where
  "parseFile md5hex fs ts filename =
     (case fs filename of
        None \<Rightarrow> Inl (Error (''open '' @ filename))
      | Some content \<Rightarrow>
          (let name = TrimSuffix (Base filename) (Ext (Base filename))
           in if name = layoutName ts then parseLayoutFile ts content
              else
                (let t = scopeTemplate content
                           \<lparr>Name = name, HTML = [], CSS = [], JS = [],
                            scopeClass = generateScopeClass md5hex name\<rparr>;
                     t' = (case jsRegex content of Some js \<Rightarrow> t\<lparr>JS := js\<rparr> | None \<Rightarrow> t)
                 in Inr (ts\<lparr>templates := (templates ts)(Name t' \<mapsto> t'),
                            templateHTML := (templateHTML ts)(Name t' \<mapsto> HTML t')\<rparr>))))"

section \<open>The composition runtime: the functions installed by \<open>ParseDirs\<close>\<close>

text \<open>\<open>param\<close> and \<open>paramOr\<close>, as functions of the call stack they read.\<close>

definition param :: "compCall list \<Rightarrow> int \<Rightarrow> val" where
  "param stack index =
     (if length stack = 0 then VNil
      else
        (let current = last stack
         in if index < 0 \<or> index \<ge> int (length (Args current)) then VNil
            else Args current ! nat index))"

definition paramOr :: "compCall list \<Rightarrow> int \<Rightarrow> val \<Rightarrow> val" where
  "paramOr stack index defaultValue =
     (if length stack = 0 then defaultValue
      else
        (let current = last stack
         in if index < 0 \<or> index \<ge> int (length (Args current)) then defaultValue
            else if Args current ! nat index = VNil then defaultValue
            else Args current ! nat index))"

text \<open>The critical sections of \<open>comp\<close>: marking a template as used, pushing the frame, and
  the deferred function that pops it.\<close>

definition markUsed :: "string \<Rightarrow> TemplateSet \<Rightarrow> TemplateSet" where
  "markUsed name ts = ts\<lparr>usedTemplates := insert name (usedTemplates ts)\<rparr>"

definition pushFrame :: "compCall \<Rightarrow> TemplateSet \<Rightarrow> TemplateSet" where
  "pushFrame frame ts = ts\<lparr>compStack := compStack ts @ [frame]\<rparr>"

definition popFrame :: "TemplateSet \<Rightarrow> TemplateSet" where
  "popFrame ts =
     (if length (compStack ts) > 0 then ts\<lparr>compStack := butlast (compStack ts)\<rparr> else ts)"

text \<open>\<open>fmt.Sprintf("%d", i)\<close> for an index.\<close>

function decimal :: "nat \<Rightarrow> string" where
  "decimal n =
     (if n < 10 then [char_of (48 + n)] else decimal (n div 10) @ [char_of (48 + n mod 10)])"
  by pat_completeness auto
termination
  by (relation "measure id") auto

declare decimal.simps [simp del]

fun indexArgs :: "nat \<Rightarrow> val list \<Rightarrow> (string \<times> val) list" where
  "indexArgs i [] = []"
| "indexArgs i (arg # rest) = (decimal i, arg) # indexArgs (Suc i) rest"

text \<open>Lines 578 to 594: the data the nested template is evaluated with.\<close>

definition compData :: "val list \<Rightarrow> val" where
  "compData args =
     (if length args = 1 then
        (case args ! 0 of VMap mapData \<Rightarrow> VMap mapData | v \<Rightarrow> VMap [(''0'', v)])
      else VMap (indexArgs 0 args))"

fun showVal :: "val \<Rightarrow> string" where
  "showVal VNil = []"
| "showVal (VStr s) = s"
| "showVal (VInt i) = (if i < 0 then ''-'' @ decimal (nat (- i)) else decimal (nat i))"
| "showVal (VMap m) = ''map''"

fun evalExpr :: "compCall list \<Rightarrow> val \<Rightarrow> expr \<Rightarrow> val" where
  "evalExpr stack data (Lit v) = v"
| "evalExpr stack data (Field key) =
     (case data of
        VMap m \<Rightarrow> (case map_of m key of Some v \<Rightarrow> v | None \<Rightarrow> VNil)
      | _ \<Rightarrow> VNil)"
| "evalExpr stack data (Param index) = param stack index"
| "evalExpr stack data (ParamOr index d) = paramOr stack index (evalExpr stack data d)"

text \<open>
  Evaluation. \<open>execNodes\<close> runs a template body and returns the text written, the error that
  stopped it (if any) and the template set as the calls left it. \<open>ExecuteTemplate\<close> is
  \<open>ts.masterTmpl.ExecuteTemplate\<close>; \<open>comp\<close> is the function of that name. A template
  can invoke itself through \<open>comp\<close> without end, so evaluation takes \<open>fuel\<close>, the number
  of nested \<open>ExecuteTemplate\<close> calls allowed: \<open>None\<close> means that the evaluation does not
  return within it.
\<close>

fun execNodes ::
    "nat \<Rightarrow> TemplateSet \<Rightarrow> node list \<Rightarrow> val \<Rightarrow> (string \<times> error option \<times> TemplateSet) option"
  and comp ::
    "nat \<Rightarrow> TemplateSet \<Rightarrow> string \<Rightarrow> val list \<Rightarrow> ((error + string) \<times> TemplateSet) option"
  and ExecuteTemplate ::
    "nat \<Rightarrow> TemplateSet \<Rightarrow> string \<Rightarrow> val \<Rightarrow> (string \<times> error option \<times> TemplateSet) option"
where
  "execNodes fuel ts [] data = Some ([], None, ts)"
| "execNodes fuel ts (Text s # rest) data =
     (case execNodes fuel ts rest data of
        None \<Rightarrow> None
      | Some (out, err, ts') \<Rightarrow> Some (s @ out, err, ts'))"
| "execNodes fuel ts (Print e # rest) data =
     (case execNodes fuel ts rest data of
        None \<Rightarrow> None
      | Some (out, err, ts') \<Rightarrow> Some (showVal (evalExpr (compStack ts) data e) @ out, err, ts'))"
| "execNodes fuel ts (RegisterTemplate name # rest) data =
     execNodes fuel (markUsed name ts) rest data"
| "execNodes fuel ts (Fail msg # rest) data = Some ([], Some (Error msg), ts)"
| "execNodes fuel ts (Comp templateName args # rest) data =
     (case comp fuel ts templateName (map (evalExpr (compStack ts) data) args) of
        None \<Rightarrow> None
      | Some (Inl e, ts') \<Rightarrow> Some ([], Some e, ts')
      | Some (Inr html, ts') \<Rightarrow>
          (case execNodes fuel ts' rest data of
             None \<Rightarrow> None
           | Some (out, err, ts'') \<Rightarrow> Some (html @ out, err, ts'')))"
| "comp fuel ts templateName args =
     (let name = TrimSuffix templateName ''.html'';
          ts1 = pushFrame \<lparr>Args = args, callName = name\<rparr> (markUsed name ts);
          data = compData args;
          tmplName = (if \<not> HasSuffix name ''.html'' then name @ ''.html'' else name)
      in case ExecuteTemplate fuel ts1 tmplName data of
           None \<Rightarrow> None
         | Some (buf, Some e, ts2) \<Rightarrow> Some (Inl e, popFrame ts2)
         | Some (buf, None, ts2) \<Rightarrow> Some (Inr buf, popFrame ts2))"
| "ExecuteTemplate 0 ts name data = None"
| "ExecuteTemplate (Suc fuel) ts name data =
     (case masterTmpl ts name of
        None \<Rightarrow> Some ([], Some (Error (''html/template: '' @ name @ '' is undefined'')), ts)
      | Some body \<Rightarrow> execNodes fuel ts body data)"

declare comp.simps [simp del]

text \<open>A small template set for concrete runs: \<open>card\<close> prints its first parameter in a
  paragraph, \<open>broken\<close> writes some text and then fails, \<open>page\<close> invokes \<open>card\<close> twice.\<close>

definition demoSet :: TemplateSet where
  "demoSet =
     \<lparr>templates = Map.empty, layout = None, layoutName = ''layout'',
      masterTmpl =
        [''card.html'' \<mapsto> [RegisterTemplate ''card'', Text ''<p>'', Print (Param 0), Text ''</p>''],
         ''broken.html'' \<mapsto> [RegisterTemplate ''broken'', Text ''<i>'', Fail ''boom''],
         ''page.html'' \<mapsto> [RegisterTemplate ''page'', Comp ''card'' [Lit (VStr ''a'')],
                              Comp ''card.html'' [Lit (VStr ''b'')], Print (Param 0)]],
      templateHTML = Map.empty, usedTemplates = {}, isolatedCache = Map.empty,
      compStack = []\<rparr>"

section \<open>Rendering: \<open>Execute\<close> and \<open>ExecuteIsolated\<close>\<close>

text \<open>
  The pattern \<open>{{[^}]*comp\s+"?([^"\s}]+)"?\<close> with which \<open>Execute\<close> scans the shell.
  \<open>matchCompTail\<close> matches \<open>comp\s+"?([^"\s}]+)"?\<close> at the front of \<open>s\<close> and returns the grp
  with the number of characters matched. \<open>[^}]*\<close> is greedy, so of the places up to the
  next \<open>}\<close> where the tail matches, the last one is taken (\<open>lastCompIn\<close>; \<open>k\<close> counts the
  characters before the place).
\<close>

definition compNameChar :: "char \<Rightarrow> bool" where
  "compNameChar c = (c \<noteq> CHR 0x22 \<and> \<not> reSpace c \<and> c \<noteq> CHR ''}'')"

definition quoteWidth :: "string \<Rightarrow> nat" where
  "quoteWidth s = (case s of [] \<Rightarrow> 0 | c # rest \<Rightarrow> if c = CHR 0x22 then 1 else 0)"

definition matchCompTail :: "string \<Rightarrow> (string \<times> nat) option" where
  "matchCompTail s =
     (if HasPrefix s ''comp'' then
        (let spaces = takeWhile reSpace (drop 4 s);
             r1 = dropWhile reSpace (drop 4 s);
             r2 = drop (quoteWidth r1) r1;
             grp = takeWhile compNameChar r2
         in if spaces = [] \<or> grp = [] then None
            else Some (grp, 4 + length spaces + quoteWidth r1 + length grp
                                + quoteWidth (dropWhile compNameChar r2)))
      else None)"

fun lastCompIn :: "nat \<Rightarrow> string \<Rightarrow> (string \<times> nat) option" where
  "lastCompIn k [] = None"
| "lastCompIn k (c # cs) =
     (case (if c = CHR ''}'' then None else lastCompIn (Suc k) cs) of
        Some m \<Rightarrow> Some m
      | None \<Rightarrow>
          (case matchCompTail (c # cs) of
             Some (grp, n) \<Rightarrow> Some (grp, k + n)
           | None \<Rightarrow> None))"

definition matchCompAt :: "string \<Rightarrow> (string \<times> nat) option" where
  "matchCompAt s = (if HasPrefix s ''{{'' then lastCompIn 2 (drop 2 s) else None)"

text \<open>\<open>compRegex.FindAllStringSubmatch(s, -1)\<close>: the groups of the successive matches,
  each search starting where the match before it ended.\<close>

function compRegexFindAll :: "string \<Rightarrow> string list" where
  "compRegexFindAll [] = []"
| "compRegexFindAll (c # cs) =
     (case matchCompAt (c # cs) of
        None \<Rightarrow> compRegexFindAll cs
      | Some (grp, n) \<Rightarrow> grp # compRegexFindAll (drop (n - 1) cs))"
  by pat_completeness auto
termination
  by (relation "measure length") auto

text \<open>The loop of lines 732 to 743 over the used templates, in the order \<open>names\<close>.\<close>

fun collectCSS :: "TemplateSet \<Rightarrow> string list \<Rightarrow> string" where
  "collectCSS ts [] = []"
| "collectCSS ts (templateName # rest) =
     (case templates ts templateName of
        Some t \<Rightarrow> (if CSS t \<noteq> [] then CSS t @ nl else []) @ collectCSS ts rest
      | None \<Rightarrow> collectCSS ts rest)"

fun collectJS :: "TemplateSet \<Rightarrow> string list \<Rightarrow> string" where
  "collectJS ts [] = []"
| "collectJS ts (templateName # rest) =
     (case templates ts templateName of
        Some t \<Rightarrow> (if JS t \<noteq> [] then JS t @ nl else []) @ collectJS ts rest
      | None \<Rightarrow> collectJS ts rest)"

text \<open>
  \<open>Execute\<close>. The result is the error returned (if any), the template set afterwards and
  the bytes the writer \<open>w\<close> holds; \<open>None\<close> is an evaluation that does not return within the
  fuel. Go ranges over the map \<open>usedTemplates\<close> in an order it does not specify: \<open>keysOf\<close>
  is that order. A shell that was never parsed (\<open>layout.tmpl\<close> is \<open>nil\<close>) makes
  \<open>Execute\<close> panic.
\<close>

definition Execute ::
  "(string set \<Rightarrow> string list) \<Rightarrow> nat \<Rightarrow> TemplateSet \<Rightarrow> string \<Rightarrow> string \<Rightarrow> val
     \<Rightarrow> (error option \<times> TemplateSet \<times> string) option" where
  "Execute keysOf fuel ts w name data =
     (if templates ts name = None then
        Some (Some (Error (''template '' @ name @ '' not found'')), ts, w)
      else
        (case layout ts of
           None \<Rightarrow> Some (Some (Error ''layout template not defined''), ts, w)
         | Some lay \<Rightarrow>
             (let ts1 = ts\<lparr>usedTemplates := {}\<rparr>;
                  ts2 = ts1\<lparr>usedTemplates := usedTemplates ts1 \<union>
                          set (map (\<lambda>compName. TrimSuffix compName ''.html'')
                                 (compRegexFindAll (layoutHTML lay)))\<rparr>
              in case ExecuteTemplate fuel ts2 (name @ ''.html'') data of
                   None \<Rightarrow> None
                 | Some (contentBuf, Some err, ts3) \<Rightarrow> Some (Some err, ts3, w)
                 | Some (contentBuf, None, ts3) \<Rightarrow>
                     (let names = keysOf (usedTemplates ts3);
                          layoutData = VMap [(''Yield'', VStr contentBuf),
                                             (''CSS'', VStr (collectCSS ts3 names)),
                                             (''JS'', VStr (collectJS ts3 names)),
                                             (''Data'', data)]
                      in case layoutTmpl lay of
                           None \<Rightarrow> Some (Some (Panic ''nil pointer dereference''), ts3, w)
                         | Some body \<Rightarrow>
                             (case execNodes fuel ts3 body layoutData of
                                None \<Rightarrow> None
                              | Some (out, err, ts4) \<Rightarrow> Some (err, ts4, w @ out))))))"

text \<open>Lines 795 to 800 of \<open>ExecuteIsolated\<close>: the text that is parsed as the template.
  \<open>htmlRegex\<close> has two groups, the attributes and the body; \<open>matches[1]\<close> is the first.\<close>

definition isolatedSource :: "string \<Rightarrow> string" where
  "isolatedSource content =
     (case htmlRegex content of
        Some (templateAttrs, templateContent) \<Rightarrow> templateAttrs
      | None \<Rightarrow> content)"

text \<open>
  \<open>ExecuteIsolated\<close>. \<open>parse name text\<close> is \<open>template.New(name).Parse(text)\<close> with the default
  and custom functions, and \<open>run tmpl data\<close> is \<open>tmpl.Execute\<close> for such a standalone
  template (the text it writes and its error); both belong to html/template and are
  parameters. \<open>fs\<close> is the file system.
\<close>

definition ExecuteIsolated ::
  "(string \<Rightarrow> string \<Rightarrow> error + node list) \<Rightarrow> (node list \<Rightarrow> val \<Rightarrow> string \<times> error option)
     \<Rightarrow> (string \<rightharpoonup> string) \<Rightarrow> TemplateSet \<Rightarrow> string \<Rightarrow> string \<Rightarrow> val
     \<Rightarrow> error option \<times> TemplateSet \<times> string" where
  "ExecuteIsolated parse run fs ts w filename data =
     (case isolatedCache ts filename of
        Some cachedTmpl \<Rightarrow> (snd (run cachedTmpl data), ts, w @ fst (run cachedTmpl data))
      | None \<Rightarrow>
          (case fs filename of
             None \<Rightarrow> (Some (Error (''error reading template file: open '' @ filename)), ts, w)
           | Some content \<Rightarrow>
               (let name = TrimSuffix (Base filename) (Ext (Base filename));
                    htmlContent = isolatedSource content
                in case parse (name @ ''_isolated'') htmlContent of
                     Inl e \<Rightarrow> (Some (Error ''error parsing isolated template''), ts, w)
                   | Inr parsedTmpl \<Rightarrow>
                       (snd (run parsedTmpl data),
                        ts\<lparr>isolatedCache := (isolatedCache ts)(filename \<mapsto> parsedTmpl)\<rparr>,
                        w @ fst (run parsedTmpl data)))))"

text \<open>A stand-in for html/template on texts without actions: every text parses to the
  template that writes it.\<close>

definition parseLiteral :: "string \<Rightarrow> string \<Rightarrow> error + node list" where
  "parseLiteral name text = Inr [Text text]"

fun writeLiteral :: "node list \<Rightarrow> string" where
  "writeLiteral [] = []"
| "writeLiteral (Text s # rest) = s @ writeLiteral rest"
| "writeLiteral (n # rest) = writeLiteral rest"

definition runLiteral :: "node list \<Rightarrow> val \<Rightarrow> string \<times> error option" where
  "runLiteral body data = (writeLiteral body, None)"

section \<open>Renders that overlap in time\<close>

text \<open>
  The critical sections through which a render touches the state that the template set
  shares: each runs under one of the mutexes \<open>compMu\<close> and \<open>ts.mu\<close>, so renders running
  at the same time interleave them as wholes. A schedule lists them in the order in
  which they take effect, each with the number of the render (the call of \<open>Execute\<close>)
  that performs it. The code keeps no such number: there is one \<open>compStack\<close> and one
  \<open>usedTemplates\<close> for all of them.
\<close>

datatype step =
    PushFrame compCall
  | PopFrame
  | CallParam int
  | CallParamOr int val
  | MarkUsed string
  | ResetUsed
  | ReadUsed

datatype obs = Returned val | Names "string set" | Done

fun atomic :: "step \<Rightarrow> TemplateSet \<Rightarrow> obs \<times> TemplateSet" where
  "atomic (PushFrame frame) ts = (Done, pushFrame frame ts)"
| "atomic PopFrame ts = (Done, popFrame ts)"
| "atomic (CallParam index) ts = (Returned (param (compStack ts) index), ts)"
| "atomic (CallParamOr index d) ts = (Returned (paramOr (compStack ts) index d), ts)"
| "atomic (MarkUsed name) ts = (Done, markUsed name ts)"
| "atomic ResetUsed ts = (Done, ts\<lparr>usedTemplates := {}\<rparr>)"
| "atomic ReadUsed ts = (Names (usedTemplates ts), ts)"

fun runSchedule :: "(nat \<times> step) list \<Rightarrow> TemplateSet \<Rightarrow> (nat \<times> obs) list \<times> TemplateSet" where
  "runSchedule [] ts = ([], ts)"
| "runSchedule ((r, s) # rest) ts =
     (let (ob, ts') = atomic s ts; (obs, ts'') = runSchedule rest ts'
      in ((r, ob) # obs, ts''))"

text \<open>What render \<open>r\<close> observes in a schedule, and the schedule in which it runs alone.\<close>

definition seenBy :: "nat \<Rightarrow> (nat \<times> step) list \<Rightarrow> TemplateSet \<Rightarrow> obs list" where
  "seenBy r sched ts = map snd (filter (\<lambda>x. fst x = r) (fst (runSchedule sched ts)))"

definition alone :: "nat \<Rightarrow> (nat \<times> step) list \<Rightarrow> (nat \<times> step) list" where
  "alone r sched = filter (\<lambda>x. fst x = r) sched"

section \<open>Occurrences of a pattern in a string\<close>

lemma HasPrefix_iff: "HasPrefix s p \<longleftrightarrow> (\<exists>v. s = p @ v)"
proof
  assume "HasPrefix s p"
  then have "s = p @ drop (length p) s"
    unfolding HasPrefix_def by (metis append_take_drop_id)
  then show "\<exists>v. s = p @ v" ..
next
  assume "\<exists>v. s = p @ v"
  then show "HasPrefix s p" by (auto simp: HasPrefix_def)
qed

lemma Contains_iff: "Contains s q \<longleftrightarrow> (\<exists>u v. s = u @ q @ v)"
proof (induction s)
  case Nil
  show ?case by (simp add: Contains_def)
next
  case (Cons c cs)
  show ?case
  proof (cases "HasPrefix (c # cs) q")
    case True
    then obtain v where "c # cs = [] @ q @ v" by (auto simp: HasPrefix_iff)
    then have "\<exists>u v. c # cs = u @ q @ v" by blast
    with True show ?thesis by (simp add: Contains_def)
  next
    case False
    then have "Contains (c # cs) q \<longleftrightarrow> Contains cs q"
      by (simp add: Contains_def)
    also have "\<dots> \<longleftrightarrow> (\<exists>u v. cs = u @ q @ v)" by (rule Cons.IH)
    also have "\<dots> \<longleftrightarrow> (\<exists>u v. c # cs = u @ q @ v)"
    proof
      assume "\<exists>u v. cs = u @ q @ v"
      then obtain u v where "cs = u @ q @ v" by blast
      then have "c # cs = (c # u) @ q @ v" by simp
      then show "\<exists>u v. c # cs = u @ q @ v" by blast
    next
      assume "\<exists>u v. c # cs = u @ q @ v"
      then obtain u v where e: "c # cs = u @ q @ v" by blast
      show "\<exists>u v. cs = u @ q @ v"
      proof (cases u)
        case Nil
        with e have "HasPrefix (c # cs) q" by (auto simp: HasPrefix_iff)
        with False show ?thesis by simp
      next
        case (Cons d u')
        with e have "cs = u' @ q @ v" by simp
        then show ?thesis by blast
      qed
    qed
    finally show ?thesis .
  qed
qed

lemma Index_SomeD: "Index s q = Some i \<Longrightarrow> s = take i s @ q @ drop (i + length q) s"
proof (induction s arbitrary: i)
  case Nil
  then show ?case by (simp split: if_splits)
next
  case (Cons c cs)
  show ?case
  proof (cases "HasPrefix (c # cs) q")
    case True
    with Cons.prems have "i = 0" by simp
    moreover from True have "c # cs = q @ drop (length q) (c # cs)"
      unfolding HasPrefix_def by (metis append_take_drop_id)
    ultimately show ?thesis by simp
  next
    case False
    with Cons.prems obtain j where j: "Index cs q = Some j" "i = Suc j" by auto
    from Cons.IH [OF j(1)] j(2) show ?thesis by simp
  qed
qed

lemma split_occurrence:
  assumes "u @ q @ v = x @ y"
  shows "(\<exists>w. x = u @ q @ w \<and> v = w @ y) \<or> (\<exists>w. y = w @ q @ v \<and> u = x @ w) \<or>
         (\<exists>q1 q2. q = q1 @ q2 \<and> q1 \<noteq> [] \<and> q2 \<noteq> [] \<and> x = u @ q1 \<and> y = q2 @ v)"
proof -
  from assms consider w where "u = x @ w" "y = w @ q @ v" | w where "u @ w = x" "q @ v = w @ y"
    by (auto simp: append_eq_append_conv2)
  then show ?thesis
  proof cases
    case 1
    then show ?thesis by blast
  next
    case 2
    from 2(2) consider w' where "q = w @ w'" "y = w' @ v" | w' where "q @ w' = w" "v = w' @ y"
      by (auto simp: append_eq_append_conv2)
    then show ?thesis
    proof cases
      case 1
      show ?thesis
      proof (cases "w = [] \<or> w' = []")
        case True
        then show ?thesis
        proof
          assume "w = []"
          with 1 2 have "y = [] @ q @ v" "u = x @ []" by auto
          then show ?thesis by blast
        next
          assume "w' = []"
          with 1 2 have "x = u @ q @ []" "v = [] @ y" by auto
          then show ?thesis by blast
        qed
      next
        case False
        with 1 2 show ?thesis by blast
      qed
    next
      case 2
      with \<open>u @ w = x\<close> have "x = u @ q @ w'" "v = w' @ y" by auto
      then show ?thesis by blast
    qed
  qed
qed

section \<open>Properties of the selector-scoping engine\<close>

lemma inRootClasses_iff: "inRootClasses rcs cn \<longleftrightarrow> cn \<in> set rcs"
  by (induction rcs) auto

lemma scopeSelector_root:
  "scopeSelector sc tag rcs et tag = tag @ ''.'' @ sc"
  by (simp add: scopeSelector_def)

lemma scopeSelector_class:
  assumes "\<not> HasPrefix tag ''.''"
  shows "scopeSelector sc tag rcs et (CHR ''.'' # name) =
           (if et = ElementTypeSingle \<or> name \<in> set rcs then ''.'' @ sc @ ''.'' @ name
            else ''.'' @ sc @ '' .'' @ name)"
proof -
  from assms have "CHR ''.'' # name \<noteq> tag"
    by (auto simp: HasPrefix_def)
  then show ?thesis
    by (simp add: scopeSelector_def HasPrefix_def inRootClasses_iff)
qed

lemma scopeSelectorList_map:
  "scopeSelectorList sc tag rcs et sels =
     map (scopeSelector sc tag rcs et) (filter (\<lambda>s. s \<noteq> []) (map TrimSpace sels))"
  by (induction sels) simp_all

text \<open>
  Claim C1, as the code has it. For a component whose root-kind is Single, every trimmed,
  non-empty selector of a rule is rewritten on its own by \<open>scopeSelector\<close>; a selector
  equal to the root tag name becomes \<open>tag.scopeClass\<close>, and a class selector \<open>.name\<close>
  becomes \<open>.scopeClass.name\<close> with no space (the root tag name comes from the first-tag
  pattern, so it does not start with a dot). With scope token \<open>s-abc123\<close> and root tag
  \<open>button\<close>, the style text \<open>button{color:red}.primary{color:blue}\<close> gives the selectors
  \<open>button.s-abc123\<close> and \<open>.s-abc123.primary\<close>, each followed by one space and the \<open>{\<close> of
  its declaration block, and each rule ended by a newline.
\<close>

theorem scopedCSS_single_root:
  "scopeSelectorList sc tag rcs ElementTypeSingle sels =
     map (scopeSelector sc tag rcs ElementTypeSingle) (filter (\<lambda>s. s \<noteq> []) (map TrimSpace sels)) \<and>
   scopeSelector sc tag rcs ElementTypeSingle tag = tag @ ''.'' @ sc \<and>
   (\<not> HasPrefix tag ''.'' \<longrightarrow>
      scopeSelector sc tag rcs ElementTypeSingle (''.'' @ name) = ''.'' @ sc @ ''.'' @ name) \<and>
   scopedCSS ''button{color:red}.primary{color:blue}'' ''s-abc123'' ''button'' [] ElementTypeSingle =
     ''button.s-abc123 {color:red}'' @ nl @ ''.s-abc123.primary {color:blue}'' @ nl"
proof (intro conjI impI)
  show "scopedCSS ''button{color:red}.primary{color:blue}'' ''s-abc123'' ''button'' [] ElementTypeSingle =
     ''button.s-abc123 {color:red}'' @ nl @ ''.s-abc123.primary {color:blue}'' @ nl"
    by code_simp
qed (simp_all add: scopeSelectorList_map scopeSelector_root scopeSelector_class)


theorem scopedCSS_single_root_witness:
  "\<not> HasPrefix ''button'' ''.'' \<and>
   scopeSelector ''s-abc123'' ''button'' [] ElementTypeSingle ''.primary'' = ''.s-abc123.primary''"
  using scopedCSS_single_root [of "''s-abc123''" "''button''" "[]" "[]" "''primary''"]
  by (simp add: HasPrefix_def)

text \<open>
  Claim C1 as the specification words it has the selectors attached to \<open>{\<close> without
  whitespace. \<open>scopedCSS\<close> writes \<open>" {"\<close> after the selector list, so neither
  \<open>button.s-abc123{\<close> nor \<open>.s-abc123.primary{\<close> occurs in the output.
\<close>

theorem scopedCSS_brace_counterexample:
  "\<not> Contains (scopedCSS ''button{color:red}.primary{color:blue}'' ''s-abc123'' ''button'' []
       ElementTypeSingle) ''button.s-abc123{'' \<and>
   \<not> Contains (scopedCSS ''button{color:red}.primary{color:blue}'' ''s-abc123'' ''button'' []
       ElementTypeSingle) ''.s-abc123.primary{''"
  by code_simp



section \<open>Properties of the composition runtime\<close>



text \<open>An evaluation that returns within some fuel returns the same with more: the fuel
  only bounds the nesting, it does not enter the result.\<close>

lemma more_fuel:
  "(\<forall>res. execNodes fuel ts nodes data = Some res \<longrightarrow> execNodes (fuel + k) ts nodes data = Some res)"
  "(\<forall>res. comp fuel ts templateName args = Some res \<longrightarrow> comp (fuel + k) ts templateName args = Some res)"
  "(\<forall>res. ExecuteTemplate fuel ts name data' = Some res \<longrightarrow> ExecuteTemplate (fuel + k) ts name data' = Some res)"
proof (induction fuel ts nodes data and fuel ts templateName args and fuel ts name data'
       rule: execNodes_comp_ExecuteTemplate.induct)
  case (1 fuel ts data)
  show ?case by simp
next
  case (2 fuel ts s rest data)
  show ?case
  proof (intro allI impI)
    fix res assume a: "execNodes fuel ts (Text s # rest) data = Some res"
    then obtain r where r: "execNodes fuel ts rest data = Some r"
      by (cases "execNodes fuel ts rest data") auto
    with "2.IH" have "execNodes (fuel + k) ts rest data = Some r" by blast
    with a r show "execNodes (fuel + k) ts (Text s # rest) data = Some res" by simp
  qed
next
  case (3 fuel ts e rest data)
  show ?case
  proof (intro allI impI)
    fix res assume a: "execNodes fuel ts (Print e # rest) data = Some res"
    then obtain r where r: "execNodes fuel ts rest data = Some r"
      by (cases "execNodes fuel ts rest data") auto
    with "3.IH" have "execNodes (fuel + k) ts rest data = Some r" by blast
    with a r show "execNodes (fuel + k) ts (Print e # rest) data = Some res" by simp
  qed
next
  case (4 fuel ts name rest data)
  then show ?case by simp
next
  case (5 fuel ts msg rest data)
  show ?case by simp
next
  case (6 fuel ts templateName args rest data)
  show ?case
  proof (intro allI impI)
    fix res assume a: "execNodes fuel ts (Comp templateName args # rest) data = Some res"
    let ?args = "map (evalExpr (compStack ts) data) args"
    from a obtain r ts1 where c: "comp fuel ts templateName ?args = Some (r, ts1)"
      by (cases "comp fuel ts templateName ?args") auto
    with "6.IH"(1) have c': "comp (fuel + k) ts templateName ?args = Some (r, ts1)" by blast
    show "execNodes (fuel + k) ts (Comp templateName args # rest) data = Some res"
    proof (cases r)
      case (Inl e)
      with a c c' show ?thesis by simp
    next
      case (Inr html)
      with a c obtain r2 where r2: "execNodes fuel ts1 rest data = Some r2"
        by (cases "execNodes fuel ts1 rest data") auto
      with "6.IH"(2) [OF c refl Inr] have "execNodes (fuel + k) ts1 rest data = Some r2" by blast
      with a c c' Inr r2 show ?thesis by simp
    qed
  qed
next
  case (7 fuel ts templateName args)
  show ?case
  proof (intro allI impI)
    fix res assume a: "comp fuel ts templateName args = Some res"
    define name where "name = TrimSuffix templateName ''.html''"
    define ts1 where "ts1 = pushFrame \<lparr>Args = args, callName = name\<rparr> (markUsed name ts)"
    define tmplName where "tmplName = (if \<not> HasSuffix name ''.html'' then name @ ''.html'' else name)"
    have unf: "\<And>n. comp n ts templateName args =
       (case ExecuteTemplate n ts1 tmplName (compData args) of
           None \<Rightarrow> None
         | Some (buf, Some e, ts2) \<Rightarrow> Some (Inl e, popFrame ts2)
         | Some (buf, None, ts2) \<Rightarrow> Some (Inr buf, popFrame ts2))"
      unfolding name_def ts1_def tmplName_def by (simp add: comp.simps Let_def)
    from a obtain r where e: "ExecuteTemplate fuel ts1 tmplName (compData args) = Some r"
      unfolding unf by (cases "ExecuteTemplate fuel ts1 tmplName (compData args)") auto
    with "7.IH" [OF name_def ts1_def refl tmplName_def]
    have "ExecuteTemplate (fuel + k) ts1 tmplName (compData args) = Some r" by blast
    with a e show "comp (fuel + k) ts templateName args = Some res"
      by (simp add: unf)
  qed
next
  case (8 ts name data)
  show ?case by simp
next
  case (9 fuel ts name data)
  show ?case
  proof (intro allI impI)
    fix res assume a: "ExecuteTemplate (Suc fuel) ts name data = Some res"
    show "ExecuteTemplate (Suc fuel + k) ts name data = Some res"
    proof (cases "masterTmpl ts name")
      case None
      with a show ?thesis by simp
    next
      case (Some body)
      with a have "execNodes fuel ts body data = Some res" by simp
      with "9.IH" [OF Some] have "execNodes (fuel + k) ts body data = Some res" by blast
      with Some show ?thesis by simp
    qed
  qed
qed



text \<open>
  Claim C6. \<open>param i\<close> is the \<open>i\<close>-th argument of the top frame, and \<open>nil\<close> when the stack is
  empty or \<open>i\<close> is not an index of the arguments; \<open>paramOr i d\<close> is \<open>d\<close> when the stack is
  empty, \<open>i\<close> is not an index, or the argument stored there is \<open>nil\<close>, and the stored
  argument otherwise. Both depend on the top frame alone: the frames below it do not
  enter the result.
\<close>

theorem param_reads_top_frame:
  "param [] i = VNil \<and>
   param (below @ [frame]) i =
     (if 0 \<le> i \<and> i < int (length (Args frame)) then Args frame ! nat i else VNil) \<and>
   paramOr [] i d = d \<and>
   paramOr (below @ [frame]) i d =
     (if 0 \<le> i \<and> i < int (length (Args frame)) \<and> Args frame ! nat i \<noteq> VNil
      then Args frame ! nat i else d) \<and>
   param (below @ [frame]) i = param [frame] i \<and>
   paramOr (below @ [frame]) i d = paramOr [frame] i d"
  by (auto simp: param_def paramOr_def Let_def)

theorem param_reads_top_frame_witness:
  "param [\<lparr>Args = [VStr ''outer''], callName = ''page''\<rparr>,
          \<lparr>Args = [VStr ''a'', VNil], callName = ''card''\<rparr>] 0 = VStr ''a'' \<and>
   param [\<lparr>Args = [VStr ''outer'', VStr ''x'', VStr ''y''], callName = ''page''\<rparr>,
          \<lparr>Args = [VStr ''a'', VNil], callName = ''card''\<rparr>] 2 = VNil \<and>
   paramOr [\<lparr>Args = [VStr ''outer'', VStr ''x''], callName = ''page''\<rparr>,
            \<lparr>Args = [VStr ''a'', VNil], callName = ''card''\<rparr>] 1 (VStr ''d'') = VStr ''d'' \<and>
   paramOr [\<lparr>Args = [VStr ''outer''], callName = ''page''\<rparr>,
            \<lparr>Args = [VStr ''a'', VNil], callName = ''card''\<rparr>] 0 (VStr ''d'') = VStr ''a''"
  using param_reads_top_frame
          [of 0 "[\<lparr>Args = [VStr ''outer''], callName = ''page''\<rparr>]"
              "\<lparr>Args = [VStr ''a'', VNil], callName = ''card''\<rparr>" "VStr ''d''"]
        param_reads_top_frame
          [of 2 "[\<lparr>Args = [VStr ''outer'', VStr ''x'', VStr ''y''], callName = ''page''\<rparr>]"
              "\<lparr>Args = [VStr ''a'', VNil], callName = ''card''\<rparr>" "VStr ''d''"]
        param_reads_top_frame
          [of 1 "[\<lparr>Args = [VStr ''outer'', VStr ''x''], callName = ''page''\<rparr>]"
              "\<lparr>Args = [VStr ''a'', VNil], callName = ''card''\<rparr>" "VStr ''d''"]
  by simp

section \<open>Properties of the shell compiler\<close>

lemma nl_notin_body: "CHR 0x0A \<notin> set ''</body>''"
  by simp

lemma styleTag_last: "last styleTag = CHR 0x0A"
  by (simp add: styleTag_def nl_def tab_def)

lemma no_body_in_styleTag: "\<not> Contains styleTag ''</body>''"
  by (simp add: styleTag_def nl_def tab_def Contains_def HasPrefix_def)

text \<open>A proper suffix of the body anchor does not start with \<open><\<close>.\<close>
lemma body_suffix_hd:
  assumes "''</body>'' = q1 @ q2" "q1 \<noteq> []" "q2 \<noteq> []"
  shows "hd q2 \<noteq> CHR ''<''"
  using assms by (auto simp: Cons_eq_append_conv)

lemma body_in_mid:
  "Contains (p @ styleTag @ ''</head>'' @ q') ''</body>'' \<longleftrightarrow>
   Contains (p @ ''</head>'' @ q') ''</body>''"
proof
  assume "Contains (p @ styleTag @ ''</head>'' @ q') ''</body>''"
  then obtain u v where e: "u @ ''</body>'' @ v = p @ (styleTag @ ''</head>'' @ q')"
    by (auto simp: Contains_iff)
  from split_occurrence [OF e]
  show "Contains (p @ ''</head>'' @ q') ''</body>''"
  proof (elim disjE exE conjE)
    fix w assume "p = u @ ''</body>'' @ w"
    then have "p @ ''</head>'' @ q' = u @ ''</body>'' @ (w @ ''</head>'' @ q')" by simp
    then show ?thesis unfolding Contains_iff by blast
  next
    fix q1 q2
    assume q: "''</body>'' = q1 @ q2" "q2 \<noteq> []" and s: "styleTag @ ''</head>'' @ q' = q2 @ v"
    from s q(2) have "hd q2 = CHR 0x0A"
      by (cases q2) (auto simp: styleTag_def nl_def)
    with q(2) have "CHR 0x0A \<in> set q2" by (cases q2) auto
    then have "CHR 0x0A \<in> set (q1 @ q2)" by simp
    with q(1) nl_notin_body show ?thesis by metis
  next
    fix w assume e2: "styleTag @ ''</head>'' @ q' = w @ ''</body>'' @ v"
    from split_occurrence [OF e2 [symmetric]]
    show ?thesis
    proof (elim disjE exE conjE)
      fix w' assume "styleTag = w @ ''</body>'' @ w'"
      then have "Contains styleTag ''</body>''" unfolding Contains_iff by blast
      with no_body_in_styleTag show ?thesis by simp
    next
      fix w' assume "''</head>'' @ q' = w' @ ''</body>'' @ v"
      then have "p @ ''</head>'' @ q' = (p @ w') @ ''</body>'' @ v" by simp
      then show ?thesis unfolding Contains_iff by blast
    next
      fix q1 q2
      assume q: "''</body>'' = q1 @ q2" "q1 \<noteq> []" and s: "styleTag = w @ q1"
      from q(2) have "last (w @ q1) = last q1" by simp
      with s have "last q1 = last styleTag" by metis
      then have "last q1 = CHR 0x0A" by (simp add: styleTag_last)
      with q(2) have "CHR 0x0A \<in> set q1" by (metis last_in_set)
      then have "CHR 0x0A \<in> set (q1 @ q2)" by simp
      with q(1) nl_notin_body show ?thesis by metis
    qed
  qed
next
  assume "Contains (p @ ''</head>'' @ q') ''</body>''"
  then obtain u v where e: "u @ ''</body>'' @ v = p @ (''</head>'' @ q')"
    by (auto simp: Contains_iff)
  from split_occurrence [OF e]
  show "Contains (p @ styleTag @ ''</head>'' @ q') ''</body>''"
  proof (elim disjE exE conjE)
    fix w assume "p = u @ ''</body>'' @ w"
    then have "p @ styleTag @ ''</head>'' @ q' = u @ ''</body>'' @ (w @ styleTag @ ''</head>'' @ q')"
      by simp
    then show ?thesis unfolding Contains_iff by blast
  next
    fix w assume "''</head>'' @ q' = w @ ''</body>'' @ v"
    then have "p @ styleTag @ ''</head>'' @ q' = (p @ styleTag @ w) @ ''</body>'' @ v" by simp
    then show ?thesis unfolding Contains_iff by blast
  next
    fix q1 q2
    assume q: "''</body>'' = q1 @ q2" "q1 \<noteq> []" "q2 \<noteq> []" and s: "''</head>'' @ q' = q2 @ v"
    from s q(3) have "hd q2 = CHR ''<''" by (cases q2) auto
    with body_suffix_hd [OF q] show ?thesis by simp
  qed
qed

text \<open>No body anchor starts inside the style placeholder followed by the head anchor.\<close>
lemma no_body_at_style_suffix:
  assumes "styleTag @ ''</head>'' = q1 @ q2" "q2 \<noteq> []"
  shows "''</body>'' @ c \<noteq> q2 @ r"
  using assms
  by (auto simp: styleTag_def nl_def tab_def Cons_eq_append_conv)

lemma style_kept:
  assumes "a @ ''</body>'' @ c = p @ styleTag @ ''</head>'' @ q'"
  shows "Contains (a @ scriptTag @ ''</body>'' @ c) (styleTag @ ''</head>'')"
proof -
  from assms have e: "p @ (styleTag @ ''</head>'') @ q' = a @ (''</body>'' @ c)" by simp
  from split_occurrence [OF e]
  show ?thesis
  proof (elim disjE exE conjE)
    fix w assume "a = p @ (styleTag @ ''</head>'') @ w"
    then have "a @ scriptTag @ ''</body>'' @ c =
        p @ (styleTag @ ''</head>'') @ (w @ scriptTag @ ''</body>'' @ c)" by simp
    then show ?thesis unfolding Contains_iff by blast
  next
    fix w assume "''</body>'' @ c = w @ (styleTag @ ''</head>'') @ q'"
    then have "a @ scriptTag @ ''</body>'' @ c =
        (a @ scriptTag @ w) @ (styleTag @ ''</head>'') @ q'" by simp
    then show ?thesis unfolding Contains_iff by blast
  next
    fix q1 q2
    assume q: "styleTag @ ''</head>'' = q1 @ q2" "q2 \<noteq> []" and s: "''</body>'' @ c = q2 @ q'"
    from no_body_at_style_suffix [OF q] s show ?thesis by blast
  qed
qed

lemma drop_at_Index:
  assumes "Index s q = Some i"
  shows "drop i s = q @ drop (i + length q) s"
proof -
  from Index_bound [OF assms] have le: "i \<le> length s" by simp
  from Index_SomeD [OF assms] have "drop i s = drop i (take i s @ q @ drop (i + length q) s)"
    by simp
  also from le have "\<dots> = q @ drop (i + length q) s" by simp
  finally show ?thesis .
qed

lemma split_at_Index:
  assumes "Index s q = Some i"
  shows "take i s @ ins @ drop i s = take i s @ ins @ q @ drop (i + length q) s"
  by (simp add: drop_at_Index [OF assms])

text \<open>
  Claim C7. Compiling the shell fails exactly when the document has no \<open></head>\<close> or no
  \<open></body>\<close>. When it succeeds, only the layout of the template set changes; the style
  placeholder has been inserted at the first \<open></head>\<close> of the document and the script
  placeholder at the first \<open></body>\<close> of the text so obtained, and in the compiled shell
  the style placeholder stands immediately before a \<open></head>\<close> and the script placeholder
  immediately before a \<open></body>\<close>.
\<close>

theorem parseLayoutFile_anchors:
  "((\<exists>e. parseLayoutFile ts content = Inl e) \<longleftrightarrow>
      \<not> Contains content ''</head>'' \<or> \<not> Contains content ''</body>'') \<and>
   (parseLayoutFile ts content = Inr ts' \<longrightarrow>
      (\<exists>h b lay.
         Index content ''</head>'' = Some h \<and>
         Index (take h content @ styleTag @ drop h content) ''</body>'' = Some b \<and>
         ts' = ts\<lparr>layout := Some lay\<rparr> \<and>
         layoutHTML lay =
           take b (take h content @ styleTag @ drop h content) @ scriptTag
             @ drop b (take h content @ styleTag @ drop h content) \<and>
         Contains (layoutHTML lay) (styleTag @ ''</head>'') \<and>
         Contains (layoutHTML lay) (scriptTag @ ''</body>'')))"
proof (cases "Index content ''</head>''")
  case None
  then have "\<not> Contains content ''</head>''" by (simp add: Contains_def)
  moreover from None have "\<exists>e. parseLayoutFile ts content = Inl e"
    by (simp add: parseLayoutFile_def)
  ultimately show ?thesis by auto
next
  case (Some h)
  define mid where "mid = take h content @ styleTag @ drop h content"
  define p where "p = take h content"
  define q' where "q' = drop (h + length ''</head>'') content"
  from Index_SomeD [OF Some] have c: "content = p @ ''</head>'' @ q'"
    by (simp add: p_def q'_def)
  from split_at_Index [OF Some] have m: "mid = p @ styleTag @ ''</head>'' @ q'"
    by (simp add: mid_def p_def q'_def)
  from Some have hd: "Contains content ''</head>''" by (simp add: Contains_def)
  have bm: "Contains mid ''</body>'' \<longleftrightarrow> Contains content ''</body>''"
    using body_in_mid [of p q'] c m by simp
  show ?thesis
  proof (cases "Index mid ''</body>''")
    case None
    then have "\<not> Contains content ''</body>''" using bm by (simp add: Contains_def)
    moreover from None Some have "\<exists>e. parseLayoutFile ts content = Inl e"
      by (simp add: parseLayoutFile_def mid_def)
    ultimately show ?thesis by auto
  next
    case (Some b)
    define final where "final = take b mid @ scriptTag @ drop b mid"
    define lay where "lay = \<lparr>layoutHTML = final, layoutTmpl = None\<rparr>"
    have r: "parseLayoutFile ts content = Inr (ts\<lparr>layout := Some lay\<rparr>)"
      using \<open>Index content ''</head>'' = Some h\<close> Some
      by (simp add: parseLayoutFile_def mid_def lay_def final_def Let_def)
    from Some have "Contains mid ''</body>''" by (simp add: Contains_def)
    with bm have bd: "Contains content ''</body>''" by simp
    define a where "a = take b mid"
    define c' where "c' = drop (b + length ''</body>'') mid"
    from Index_SomeD [OF Some] have mab: "mid = a @ ''</body>'' @ c'"
      by (simp add: a_def c'_def)
    from split_at_Index [OF Some] have f: "final = a @ scriptTag @ ''</body>'' @ c'"
      by (simp add: final_def a_def c'_def)
    from mab m have "a @ ''</body>'' @ c' = p @ styleTag @ ''</head>'' @ q'" by simp
    from style_kept [OF this] f have k1: "Contains final (styleTag @ ''</head>'')" by simp
    from f have "final = a @ (scriptTag @ ''</body>'') @ c'" by simp
    then have k2: "Contains final (scriptTag @ ''</body>'')" unfolding Contains_iff by blast
    have lh: "layoutHTML lay = final" by (simp add: lay_def)
    have "\<not> (\<exists>e. parseLayoutFile ts content = Inl e)" using r by simp
    moreover have "parseLayoutFile ts content = Inr ts' \<longrightarrow>
      (\<exists>h b lay.
         Index content ''</head>'' = Some h \<and>
         Index (take h content @ styleTag @ drop h content) ''</body>'' = Some b \<and>
         ts' = ts\<lparr>layout := Some lay\<rparr> \<and>
         layoutHTML lay =
           take b (take h content @ styleTag @ drop h content) @ scriptTag
             @ drop b (take h content @ styleTag @ drop h content) \<and>
         Contains (layoutHTML lay) (styleTag @ ''</head>'') \<and>
         Contains (layoutHTML lay) (scriptTag @ ''</body>''))"
    proof
      assume "parseLayoutFile ts content = Inr ts'"
      with r have t: "ts' = ts\<lparr>layout := Some lay\<rparr>" by simp
      from \<open>Index content ''</head>'' = Some h\<close> Some t lh k1 k2
      show "\<exists>h b lay.
         Index content ''</head>'' = Some h \<and>
         Index (take h content @ styleTag @ drop h content) ''</body>'' = Some b \<and>
         ts' = ts\<lparr>layout := Some lay\<rparr> \<and>
         layoutHTML lay =
           take b (take h content @ styleTag @ drop h content) @ scriptTag
             @ drop b (take h content @ styleTag @ drop h content) \<and>
         Contains (layoutHTML lay) (styleTag @ ''</head>'') \<and>
         Contains (layoutHTML lay) (scriptTag @ ''</body>'')"
        unfolding mid_def [symmetric] final_def [symmetric]
        by (intro exI [of _ h] exI [of _ b] exI [of _ lay]) (simp add: mid_def final_def)
    qed
    ultimately show ?thesis using hd bd by blast
  qed
qed

theorem parseLayoutFile_anchors_witness:
  "(\<exists>e. parseLayoutFile demoSet ''<html><head></head><p>x</p></html>'' = Inl e) \<and>
   \<not> Contains ''<html><head></head><p>x</p></html>'' ''</body>'' \<and>
   (\<exists>e. parseLayoutFile demoSet ''<html><body>{{ .Yield }}</body></html>'' = Inl e) \<and>
   \<not> Contains ''<html><body>{{ .Yield }}</body></html>'' ''</head>'' \<and>
   Contains ''<head></head><body>{{ .Yield }}</body>'' ''</head>'' \<and>
   Contains ''<head></head><body>{{ .Yield }}</body>'' ''</body>'' \<and>
   \<not> (\<exists>e. parseLayoutFile demoSet ''<head></head><body>{{ .Yield }}</body>'' = Inl e) \<and>
   map_option layoutHTML
     (case parseLayoutFile demoSet ''<head></head><body>{{ .Yield }}</body>'' of
        Inl e \<Rightarrow> None | Inr t \<Rightarrow> layout t)
     = Some (''<head>'' @ nl @ tab @ ''<style>{{ .CSS }}</style>'' @ nl @ ''</head><body>{{ .Yield }}''
             @ nl @ tab @ ''<script>{{ .JS }}</script>'' @ nl @ ''</body>'')"
proof -
  have a: "\<not> Contains ''<html><head></head><p>x</p></html>'' ''</body>''" by code_simp
  have b: "\<not> Contains ''<html><body>{{ .Yield }}</body></html>'' ''</head>''" by code_simp
  have c: "Contains ''<head></head><body>{{ .Yield }}</body>'' ''</head>''" by code_simp
  have d: "Contains ''<head></head><body>{{ .Yield }}</body>'' ''</body>''" by code_simp
  have e: "map_option layoutHTML
     (case parseLayoutFile demoSet ''<head></head><body>{{ .Yield }}</body>'' of
        Inl e \<Rightarrow> None | Inr t \<Rightarrow> layout t)
     = Some (''<head>'' @ nl @ tab @ ''<style>{{ .CSS }}</style>'' @ nl @ ''</head><body>{{ .Yield }}''
             @ nl @ tab @ ''<script>{{ .JS }}</script>'' @ nl @ ''</body>'')"
    by code_simp
  from parseLayoutFile_anchors [of demoSet "''<html><head></head><p>x</p></html>''"] a
  have a': "\<exists>e. parseLayoutFile demoSet ''<html><head></head><p>x</p></html>'' = Inl e" by blast
  from parseLayoutFile_anchors [of demoSet "''<html><body>{{ .Yield }}</body></html>''"] b
  have b': "\<exists>e. parseLayoutFile demoSet ''<html><body>{{ .Yield }}</body></html>'' = Inl e" by blast
  from parseLayoutFile_anchors [of demoSet "''<head></head><body>{{ .Yield }}</body>''"] c d
  have c': "\<not> (\<exists>e. parseLayoutFile demoSet ''<head></head><body>{{ .Yield }}</body>'' = Inl e)"
    by blast
  from a a' b b' c d c' e show ?thesis by blast
qed

section \<open>Properties of the component compiler\<close>

lemma containedSelectorList_map:
  "containedSelectorList sc sels =
     map (\<lambda>s. ''.'' @ sc @ '' '' @ s) (filter (\<lambda>s. s \<noteq> []) (map TrimSpace sels))"
  by (induction sels) simp_all

text \<open>
  Claim C3, as the code has it. The body \<open><b>{{x}}</b>\<close> has a root element and is Single;
  \<open><div><span/></div>\<close> has a root element and is Container; \<open><b/>Other<i/>\<close> has no root
  element (root-kind Normal). For every component whose markup has no root element, whose
  \<open><template>\<close> tag has no \<open>unwrap\<close> and whose style block is not empty, the markup is
  wrapped in \<open><div class="scopeClass">\<close> and the style is scoped by \<open>containedScopedCSS\<close>,
  which prefixes every trimmed, non-empty selector with \<open>.scopeClass\<close> and a space. A
  component with no style block, or with an empty one, is not wrapped, whatever its
  root-kind: its markup is the trimmed body of the markup block and its style is left
  as it was.
\<close>

theorem root_kind_classification:
  "hasRootElement (analyzeRoot (maskDelimiters ''<b>{{x}}</b>'')) \<and>
   isSingleElement (analyzeRoot (maskDelimiters ''<b>{{x}}</b>'')) \<and>
   elementTypeOf (analyzeRoot (maskDelimiters ''<b>{{x}}</b>'')) False = ElementTypeSingle \<and>
   hasRootElement (analyzeRoot (maskDelimiters ''<div><span/></div>'')) \<and>
   isRootContainer (analyzeRoot (maskDelimiters ''<div><span/></div>'')) \<and>
   elementTypeOf (analyzeRoot (maskDelimiters ''<div><span/></div>'')) False = ElementTypeContainer \<and>
   \<not> hasRootElement (analyzeRoot (maskDelimiters ''<b/>Other<i/>'')) \<and>
   elementTypeOf (analyzeRoot (maskDelimiters ''<b/>Other<i/>'')) False = ElementTypeNormal \<and>
   (htmlRegex content = Some (attrs, body) \<and> \<not> Contains attrs ''unwrap'' \<and>
    \<not> hasRootElement (analyzeRoot (maskDelimiters (TrimSpace body))) \<and>
    cssRegex content = Some (cssAttrs, css) \<and> css \<noteq> [] \<longrightarrow>
      HTML (scopeTemplate content t) =
        ''<div class='' @ dq @ scopeClass t @ dq @ ''>'' @ TrimSpace body @ ''</div>'' \<and>
      CSS (scopeTemplate content t) = containedScopedCSS css (scopeClass t)) \<and>
   (htmlRegex content = Some (attrs, body) \<and>
    (cssRegex content = None \<or> cssRegex content = Some (cssAttrs, [])) \<longrightarrow>
      HTML (scopeTemplate content t) = TrimSpace body \<and>
      CSS (scopeTemplate content t) = CSS t) \<and>
   containedSelectorList sc sels =
     map (\<lambda>s. ''.'' @ sc @ '' '' @ s) (filter (\<lambda>s. s \<noteq> []) (map TrimSpace sels))"
proof -
  have a: "analyzeRoot (maskDelimiters ''<b>{{x}}</b>'') =
      \<lparr>hasRootElement = True, isSingleElement = True, isRootContainer = False,
       rootTagName = ''b'', rootClasses = []\<rparr>"
    by code_simp
  have b: "analyzeRoot (maskDelimiters ''<div><span/></div>'') =
      \<lparr>hasRootElement = True, isSingleElement = False, isRootContainer = True,
       rootTagName = ''div'', rootClasses = []\<rparr>"
    by code_simp
  have c: "analyzeRoot (maskDelimiters ''<b/>Other<i/>'') =
      \<lparr>hasRootElement = False, isSingleElement = False, isRootContainer = False,
       rootTagName = ''b'', rootClasses = []\<rparr>"
    by code_simp
  have d: "htmlRegex content = Some (attrs, body) \<and> \<not> Contains attrs ''unwrap'' \<and>
    \<not> hasRootElement (analyzeRoot (maskDelimiters (TrimSpace body))) \<and>
    cssRegex content = Some (cssAttrs, css) \<and> css \<noteq> [] \<longrightarrow>
      HTML (scopeTemplate content t) =
        ''<div class='' @ dq @ scopeClass t @ dq @ ''>'' @ TrimSpace body @ ''</div>'' \<and>
      CSS (scopeTemplate content t) = containedScopedCSS css (scopeClass t)"
    by (simp add: scopeTemplate_def Let_def)
  have e: "htmlRegex content = Some (attrs, body) \<and>
    (cssRegex content = None \<or> cssRegex content = Some (cssAttrs, [])) \<longrightarrow>
      HTML (scopeTemplate content t) = TrimSpace body \<and>
      CSS (scopeTemplate content t) = CSS t"
  proof (intro impI, elim conjE disjE)
    assume "htmlRegex content = Some (attrs, body)" "cssRegex content = None"
    then show "HTML (scopeTemplate content t) = TrimSpace body \<and>
      CSS (scopeTemplate content t) = CSS t"
      by (simp add: scopeTemplate_def Let_def)
  next
    assume "htmlRegex content = Some (attrs, body)" "cssRegex content = Some (cssAttrs, [])"
    then show "HTML (scopeTemplate content t) = TrimSpace body \<and>
      CSS (scopeTemplate content t) = CSS t"
      by (simp add: scopeTemplate_def Let_def)
  qed
  have kinds:
    "hasRootElement (analyzeRoot (maskDelimiters ''<b>{{x}}</b>'')) \<and>
     isSingleElement (analyzeRoot (maskDelimiters ''<b>{{x}}</b>'')) \<and>
     elementTypeOf (analyzeRoot (maskDelimiters ''<b>{{x}}</b>'')) False = ElementTypeSingle \<and>
     hasRootElement (analyzeRoot (maskDelimiters ''<div><span/></div>'')) \<and>
     isRootContainer (analyzeRoot (maskDelimiters ''<div><span/></div>'')) \<and>
     elementTypeOf (analyzeRoot (maskDelimiters ''<div><span/></div>'')) False = ElementTypeContainer \<and>
     \<not> hasRootElement (analyzeRoot (maskDelimiters ''<b/>Other<i/>'')) \<and>
     elementTypeOf (analyzeRoot (maskDelimiters ''<b/>Other<i/>'')) False = ElementTypeNormal"
    unfolding a b c by (simp add: elementTypeOf_def)
  have sel: "containedSelectorList sc sels =
     map (\<lambda>s. ''.'' @ sc @ '' '' @ s) (filter (\<lambda>s. s \<noteq> []) (map TrimSpace sels))"
    by (rule containedSelectorList_map)
  from kinds d e sel show ?thesis by (intro conjI) (elim conjE, assumption)+
qed

theorem root_kind_classification_witness:
  "htmlRegex ''<template><b/>Other<i/></template><style>b{color:red}</style>''
     = Some ([], ''<b/>Other<i/>'') \<and>
   cssRegex ''<template><b/>Other<i/></template><style>b{color:red}</style>''
     = Some ([], ''b{color:red}'') \<and>
   \<not> Contains [] ''unwrap'' \<and>
   HTML (scopeTemplate ''<template><b/>Other<i/></template><style>b{color:red}</style>''
           \<lparr>Name = ''c'', HTML = [], CSS = [], JS = [], scopeClass = ''s-abc123''\<rparr>)
     = ''<div class='' @ dq @ ''s-abc123'' @ dq @ ''><b/>Other<i/></div>'' \<and>
   CSS (scopeTemplate ''<template><b/>Other<i/></template><style>b{color:red}</style>''
           \<lparr>Name = ''c'', HTML = [], CSS = [], JS = [], scopeClass = ''s-abc123''\<rparr>)
     = ''.s-abc123 b {color:red}'' @ nl \<and>
   htmlRegex ''<template> <b/>Other<i/> </template><style></style>''
     = Some ([], '' <b/>Other<i/> '') \<and>
   cssRegex ''<template> <b/>Other<i/> </template><style></style>'' = Some ([], []) \<and>
   HTML (scopeTemplate ''<template> <b/>Other<i/> </template><style></style>''
           \<lparr>Name = ''c'', HTML = [], CSS = [], JS = [], scopeClass = ''s-abc123''\<rparr>)
     = ''<b/>Other<i/>'' \<and>
   CSS (scopeTemplate ''<template> <b/>Other<i/> </template><style></style>''
           \<lparr>Name = ''c'', HTML = [], CSS = [], JS = [], scopeClass = ''s-abc123''\<rparr>)
     = [] \<and>
   htmlRegex ''<template><div><span/></div></template>'' = Some ([], ''<div><span/></div>'') \<and>
   cssRegex ''<template><div><span/></div></template>'' = None \<and>
   HTML (scopeTemplate ''<template><div><span/></div></template>''
           \<lparr>Name = ''c'', HTML = [], CSS = [], JS = [], scopeClass = ''s-abc123''\<rparr>)
     = ''<div><span/></div>''"
proof -
  have h: "htmlRegex ''<template><b/>Other<i/></template><style>b{color:red}</style>''
     = Some ([], ''<b/>Other<i/>'')" by code_simp
  have c: "cssRegex ''<template><b/>Other<i/></template><style>b{color:red}</style>''
     = Some ([], ''b{color:red}'')" by code_simp
  have u: "\<not> Contains [] ''unwrap''" by code_simp
  have t: "TrimSpace ''<b/>Other<i/>'' = ''<b/>Other<i/>''" by code_simp
  have k: "containedScopedCSS ''b{color:red}'' ''s-abc123'' = ''.s-abc123 b {color:red}'' @ nl"
    by code_simp
  from root_kind_classification
         [of "''<template><b/>Other<i/></template><style>b{color:red}</style>''" "[]"
             "''<b/>Other<i/>''" "[]" "''b{color:red}''"
             "\<lparr>Name = ''c'', HTML = [], CSS = [], JS = [], scopeClass = ''s-abc123''\<rparr>"]
       h c u
  have styled:
    "HTML (scopeTemplate ''<template><b/>Other<i/></template><style>b{color:red}</style>''
           \<lparr>Name = ''c'', HTML = [], CSS = [], JS = [], scopeClass = ''s-abc123''\<rparr>)
       = ''<div class='' @ dq @ ''s-abc123'' @ dq @ ''><b/>Other<i/></div>'' \<and>
     CSS (scopeTemplate ''<template><b/>Other<i/></template><style>b{color:red}</style>''
           \<lparr>Name = ''c'', HTML = [], CSS = [], JS = [], scopeClass = ''s-abc123''\<rparr>)
       = ''.s-abc123 b {color:red}'' @ nl"
    by (simp add: t k)
  have h2: "htmlRegex ''<template> <b/>Other<i/> </template><style></style>''
     = Some ([], '' <b/>Other<i/> '')" by code_simp
  have c2: "cssRegex ''<template> <b/>Other<i/> </template><style></style>'' = Some ([], [])"
    by code_simp
  have t2: "TrimSpace '' <b/>Other<i/> '' = ''<b/>Other<i/>''" by code_simp
  from root_kind_classification
         [of "''<template> <b/>Other<i/> </template><style></style>''" "[]"
             "'' <b/>Other<i/> ''" "[]" "[]"
             "\<lparr>Name = ''c'', HTML = [], CSS = [], JS = [], scopeClass = ''s-abc123''\<rparr>"]
       h2 c2
  have empty:
    "HTML (scopeTemplate ''<template> <b/>Other<i/> </template><style></style>''
           \<lparr>Name = ''c'', HTML = [], CSS = [], JS = [], scopeClass = ''s-abc123''\<rparr>)
       = ''<b/>Other<i/>'' \<and>
     CSS (scopeTemplate ''<template> <b/>Other<i/> </template><style></style>''
           \<lparr>Name = ''c'', HTML = [], CSS = [], JS = [], scopeClass = ''s-abc123''\<rparr>)
       = []"
    by (simp add: t2)
  have h3: "htmlRegex ''<template><div><span/></div></template>''
     = Some ([], ''<div><span/></div>'')" by code_simp
  have c3: "cssRegex ''<template><div><span/></div></template>'' = None" by code_simp
  have t3: "TrimSpace ''<div><span/></div>'' = ''<div><span/></div>''" by code_simp
  from root_kind_classification
         [of "''<template><div><span/></div></template>''" "[]"
             "''<div><span/></div>''" "[]" "[]"
             "\<lparr>Name = ''c'', HTML = [], CSS = [], JS = [], scopeClass = ''s-abc123''\<rparr>"]
       h3 c3
  have absent:
    "HTML (scopeTemplate ''<template><div><span/></div></template>''
           \<lparr>Name = ''c'', HTML = [], CSS = [], JS = [], scopeClass = ''s-abc123''\<rparr>)
       = ''<div><span/></div>''"
    by (simp add: t3)
  from h c u styled h2 c2 empty h3 c3 absent show ?thesis by blast
qed

text \<open>
  Claim C3 as the specification words it wraps the markup whenever the root-kind is Normal
  and \<open>unwrap\<close> is absent. \<open>parseFile\<close> does nothing about the scope when there is no style:
  the component \<open><template><b/>Other<i/></template>\<close> keeps its markup as it is, and so
  does the same component followed by the empty block \<open><style></style>\<close>.
\<close>

theorem unstyled_markup_counterexample:
  "htmlRegex ''<template><b/>Other<i/></template>'' = Some ([], ''<b/>Other<i/>'') \<and>
   \<not> Contains [] ''unwrap'' \<and>
   \<not> hasRootElement (analyzeRoot (maskDelimiters ''<b/>Other<i/>'')) \<and>
   HTML (scopeTemplate ''<template><b/>Other<i/></template>''
           \<lparr>Name = ''c'', HTML = [], CSS = [], JS = [], scopeClass = ''s-abc123''\<rparr>)
     = ''<b/>Other<i/>'' \<and>
   cssRegex ''<template><b/>Other<i/></template><style></style>'' = Some ([], []) \<and>
   HTML (scopeTemplate ''<template><b/>Other<i/></template><style></style>''
           \<lparr>Name = ''c'', HTML = [], CSS = [], JS = [], scopeClass = ''s-abc123''\<rparr>)
     = ''<b/>Other<i/>''"
  by code_simp


text \<open>
  Claim C4 at a component whose root element has no class attribute and whose child has
  one: the root element \<open>div\<close> is detected and the style block is not empty, yet the scope
  class goes into the class attribute of the \<open>span\<close>, because \<open>parseFile\<close> looks for
  \<open>class="\<close> in the whole markup. The root element carries no scope class, and the scoped
  rule \<open>.s-abc123 .a\<close> asks for an ancestor that has it.
\<close>

theorem scope_class_on_descendant:
  "hasRootElement (analyzeRoot (maskDelimiters (''<div><span class='' @ dq @ ''a'' @ dq @ ''>x</span></div>''))) \<and>
   rootTagName (analyzeRoot (maskDelimiters (''<div><span class='' @ dq @ ''a'' @ dq @ ''>x</span></div>''))) = ''div'' \<and>
   HTML (scopeTemplate
           (''<template><div><span class='' @ dq @ ''a'' @ dq @ ''>x</span></div></template>''
              @ ''<style>.a{color:red}</style>'')
           \<lparr>Name = ''c'', HTML = [], CSS = [], JS = [], scopeClass = ''s-abc123''\<rparr>)
     = ''<div><span class='' @ dq @ ''s-abc123 a'' @ dq @ ''>x</span></div>'' \<and>
   CSS (scopeTemplate
           (''<template><div><span class='' @ dq @ ''a'' @ dq @ ''>x</span></div></template>''
              @ ''<style>.a{color:red}</style>'')
           \<lparr>Name = ''c'', HTML = [], CSS = [], JS = [], scopeClass = ''s-abc123''\<rparr>)
     = ''.s-abc123 .a {color:red}'' @ nl"
  by code_simp

section \<open>Properties of rendering\<close>

text \<open>
  Claim C8 at a document with a markup block: \<open>ExecuteIsolated\<close> compiles \<open>matches[1]\<close>,
  which is the attribute text of the \<open><template>\<close> tag since \<open>htmlRegex\<close> has two groups,
  not the content of the block. For \<open><template><p>Hi</p></template>\<close> followed by a style
  block the text compiled is empty, nothing is written, and the template cached under the
  file name is the empty one.
\<close>

theorem isolated_render_takes_attributes:
  "isolatedSource ''<template><p>Hi</p></template><style>p{color:red}</style>'' = [] \<and>
   isolatedSource ''<template unwrap><p>Hi</p></template>'' = '' unwrap'' \<and>
   snd (snd (ExecuteIsolated parseLiteral runLiteral
               [''/t/hello.html'' \<mapsto> ''<template><p>Hi</p></template><style>p{color:red}</style>'']
               demoSet [] ''/t/hello.html'' VNil)) = [] \<and>
   fst (ExecuteIsolated parseLiteral runLiteral
               [''/t/hello.html'' \<mapsto> ''<template><p>Hi</p></template><style>p{color:red}</style>'']
               demoSet [] ''/t/hello.html'' VNil) = None \<and>
   isolatedCache (fst (snd (ExecuteIsolated parseLiteral runLiteral
               [''/t/hello.html'' \<mapsto> ''<template><p>Hi</p></template><style>p{color:red}</style>'']
               demoSet [] ''/t/hello.html'' VNil))) ''/t/hello.html'' = Some [Text []]"
  by code_simp


text \<open>
  Claim C10. When no template is registered under the name, or when no layout has been
  compiled, \<open>Execute\<close> returns an error, the writer holds what it held before, and the
  template set is unchanged. No template is evaluated: the result is the one obtained
  with no fuel at all, with which any evaluation would fail to return.
\<close>

theorem Execute_precondition_failures:
  "(templates ts name = None \<longrightarrow>
      Execute keysOf fuel ts w name data =
        Some (Some (Error (''template '' @ name @ '' not found'')), ts, w)) \<and>
   (templates ts name \<noteq> None \<and> layout ts = None \<longrightarrow>
      Execute keysOf fuel ts w name data =
        Some (Some (Error ''layout template not defined''), ts, w)) \<and>
   (templates ts name = None \<or> layout ts = None \<longrightarrow>
      Execute keysOf fuel ts w name data = Execute keysOf 0 ts w name data)"
  by (auto simp: Execute_def)

theorem Execute_precondition_failures_witness:
  "templates demoSet ''home'' = None \<and>
   Execute (\<lambda>used. []) 3 demoSet ''sent before'' ''home'' VNil =
     Some (Some (Error ''template home not found''), demoSet, ''sent before'') \<and>
   templates (demoSet\<lparr>templates := [''card'' \<mapsto> \<lparr>Name = ''card'', HTML = ''<p>x</p>'', CSS = [], JS = [], scopeClass = ''s-abc123''\<rparr>]\<rparr>) ''card'' \<noteq> None \<and>
   layout (demoSet\<lparr>templates := [''card'' \<mapsto> \<lparr>Name = ''card'', HTML = ''<p>x</p>'', CSS = [], JS = [], scopeClass = ''s-abc123''\<rparr>]\<rparr>) = None \<and>
   Execute (\<lambda>used. []) 3 (demoSet\<lparr>templates := [''card'' \<mapsto> \<lparr>Name = ''card'', HTML = ''<p>x</p>'', CSS = [], JS = [], scopeClass = ''s-abc123''\<rparr>]\<rparr>) ''sent before'' ''card'' VNil =
     Some (Some (Error ''layout template not defined''), demoSet\<lparr>templates := [''card'' \<mapsto> \<lparr>Name = ''card'', HTML = ''<p>x</p>'', CSS = [], JS = [], scopeClass = ''s-abc123''\<rparr>]\<rparr>,
           ''sent before'')"
  using Execute_precondition_failures [of demoSet "''home''" "\<lambda>used. []" 3 "''sent before''" VNil]
        Execute_precondition_failures
          [of "demoSet\<lparr>templates := [''card'' \<mapsto> \<lparr>Name = ''card'', HTML = ''<p>x</p>'', CSS = [], JS = [], scopeClass = ''s-abc123''\<rparr>]\<rparr>" "''card''" "\<lambda>used. []" 3 "''sent before''" VNil]
  by (simp add: demoSet_def)

section \<open>Properties of overlapping renders\<close>

lemma atomic_cong:
  assumes "compStack t1 = compStack t2" "usedTemplates t1 = usedTemplates t2"
  shows "fst (atomic s t1) = fst (atomic s t2) \<and>
         compStack (snd (atomic s t1)) = compStack (snd (atomic s t2)) \<and>
         usedTemplates (snd (atomic s t1)) = usedTemplates (snd (atomic s t2))"
  using assms by (cases s) (simp_all add: pushFrame_def popFrame_def markUsed_def)

lemma runSchedule_cong:
  "compStack t1 = compStack t2 \<Longrightarrow> usedTemplates t1 = usedTemplates t2 \<Longrightarrow>
   fst (runSchedule sched t1) = fst (runSchedule sched t2)"
proof (induction sched arbitrary: t1 t2)
  case Nil
  show ?case by simp
next
  case (Cons x sched)
  obtain r s where x: "x = (r, s)" by (cases x)
  from atomic_cong [OF Cons.prems, of s]
  have o: "fst (atomic s t1) = fst (atomic s t2)"
    and c: "compStack (snd (atomic s t1)) = compStack (snd (atomic s t2))"
    and u: "usedTemplates (snd (atomic s t1)) = usedTemplates (snd (atomic s t2))"
    by simp_all
  from Cons.IH [OF c u] o show ?case
    by (simp add: x split_beta)
qed

lemma runSchedule_append:
  "fst (runSchedule (s1 @ s2) ts) =
     fst (runSchedule s1 ts) @ fst (runSchedule s2 (snd (runSchedule s1 ts)))"
proof (induction s1 arbitrary: ts)
  case Nil
  show ?case by simp
next
  case (Cons x s1)
  obtain r s where "x = (r, s)" by (cases x)
  with Cons.IH show ?case by (simp add: split_beta)
qed

lemma runSchedule_tags: "map fst (fst (runSchedule sched ts)) = map fst sched"
proof (induction sched arbitrary: ts)
  case Nil
  show ?case by simp
next
  case (Cons x sched)
  obtain r s where "x = (r, s)" by (cases x)
  with Cons.IH show ?case by (simp add: split_beta)
qed

lemma others_unseen:
  assumes "\<forall>x\<in>set s1. fst x \<noteq> r"
  shows "filter (\<lambda>x. fst x = r) (fst (runSchedule s1 ts)) = []"
proof -
  have "set (map fst (fst (runSchedule s1 ts))) = set (map fst s1)"
    by (simp only: runSchedule_tags)
  with assms have "\<forall>x\<in>set (fst (runSchedule s1 ts)). fst x \<noteq> r"
    by (metis (no_types, lifting) image_iff list.set_map)
  then show ?thesis by (simp add: filter_empty_conv)
qed

lemma alone_own:
  assumes "\<forall>x\<in>set s1. fst x \<noteq> r" "\<forall>x\<in>set s2. fst x = r"
  shows "alone r (s1 @ (r, ResetUsed) # s2) = (r, ResetUsed) # s2"
proof -
  from assms(1) have "filter (\<lambda>x. fst x = r) s1 = []" by (simp add: filter_empty_conv)
  moreover from assms(2) have "filter (\<lambda>x. fst x = r) s2 = s2" by (simp add: filter_id_conv)
  ultimately show ?thesis by (simp add: alone_def)
qed

text \<open>
  Claim C9, as the code has it. The call stack and the used set belong to the template
  set, not to a render. A render that starts (by clearing the used set, as \<open>Execute\<close>
  does) after all the steps of the other renders, when these have left the call stack as
  they found it, observes what it would observe running alone.
\<close>

theorem renders_isolated_when_sequential:
  "(\<forall>x\<in>set s1. fst x \<noteq> r) \<and> (\<forall>x\<in>set s2. fst x = r) \<and>
   compStack (snd (runSchedule s1 ts)) = compStack ts \<longrightarrow>
     seenBy r (s1 @ (r, ResetUsed) # s2) ts =
     seenBy r (alone r (s1 @ (r, ResetUsed) # s2)) ts"
proof (intro impI, elim conjE)
  assume o: "\<forall>x\<in>set s1. fst x \<noteq> r" and m: "\<forall>x\<in>set s2. fst x = r"
    and b: "compStack (snd (runSchedule s1 ts)) = compStack ts"
  define ts1 where "ts1 = snd (runSchedule s1 ts)"
  have "fst (runSchedule s2 (ts1\<lparr>usedTemplates := {}\<rparr>)) =
        fst (runSchedule s2 (ts\<lparr>usedTemplates := {}\<rparr>))"
    by (rule runSchedule_cong) (simp_all add: ts1_def b)
  then have e: "fst (runSchedule ((r, ResetUsed) # s2) ts1) =
                fst (runSchedule ((r, ResetUsed) # s2) ts)"
    by (simp add: split_beta)
  have "seenBy r (s1 @ (r, ResetUsed) # s2) ts =
        map snd (filter (\<lambda>x. fst x = r) (fst (runSchedule ((r, ResetUsed) # s2) ts1)))"
    unfolding seenBy_def runSchedule_append ts1_def
    by (simp only: filter_append others_unseen [OF o] append_Nil)
  also have "\<dots> = seenBy r ((r, ResetUsed) # s2) ts"
    by (simp only: e seenBy_def)
  finally show "seenBy r (s1 @ (r, ResetUsed) # s2) ts =
     seenBy r (alone r (s1 @ (r, ResetUsed) # s2)) ts"
    by (simp only: alone_own [OF o m])
qed

theorem renders_isolated_when_sequential_witness:
  "seenBy 2
     ([(1, ResetUsed), (1, MarkUsed ''card''),
       (1, PushFrame \<lparr>Args = [VStr ''one''], callName = ''card''\<rparr>), (1, CallParam 0),
       (1, PopFrame), (1, ReadUsed)]
      @ (2, ResetUsed) # [(2, MarkUsed ''page''), (2, CallParam 0), (2, ReadUsed)]) demoSet
   = [Done, Done, Returned VNil, Names {''page''}] \<and>
   seenBy 2
     (alone 2
       ([(1, ResetUsed), (1, MarkUsed ''card''),
         (1, PushFrame \<lparr>Args = [VStr ''one''], callName = ''card''\<rparr>), (1, CallParam 0),
         (1, PopFrame), (1, ReadUsed)]
        @ (2, ResetUsed) # [(2, MarkUsed ''page''), (2, CallParam 0), (2, ReadUsed)])) demoSet
   = [Done, Done, Returned VNil, Names {''page''}]"
proof -
  let ?s1 = "[(1::nat, ResetUsed), (1, MarkUsed ''card''),
       (1, PushFrame \<lparr>Args = [VStr ''one''], callName = ''card''\<rparr>), (1, CallParam 0),
       (1, PopFrame), (1, ReadUsed)]"
  let ?s2 = "[(2::nat, MarkUsed ''page''), (2, CallParam 0), (2, ReadUsed)]"
  have a: "\<forall>x\<in>set ?s1. fst x \<noteq> 2" by simp
  have b: "\<forall>x\<in>set ?s2. fst x = 2" by simp
  have c: "compStack (snd (runSchedule ?s1 demoSet)) = compStack demoSet"
    by (simp add: pushFrame_def popFrame_def markUsed_def demoSet_def)
  have d: "seenBy 2 (alone 2 (?s1 @ (2, ResetUsed) # ?s2)) demoSet
             = [Done, Done, Returned VNil, Names {''page''}]"
    by (simp add: seenBy_def alone_def pushFrame_def popFrame_def markUsed_def demoSet_def
          param_def)
  from renders_isolated_when_sequential [of ?s1 2 ?s2 demoSet] a b c
  have "seenBy 2 (?s1 @ (2, ResetUsed) # ?s2) demoSet =
        seenBy 2 (alone 2 (?s1 @ (2, ResetUsed) # ?s2)) demoSet"
    by blast
  with d show ?thesis by simp
qed

text \<open>
  Claim C9 as the specification words it gives every render a call stack and a used set of
  its own. In the code a frame pushed by render 1 is what \<open>param\<close> returns to render 2,
  which has pushed none; and render 2 clearing the used set empties what render 1 reads
  at its end.
\<close>

theorem shared_call_stack_counterexample:
  "seenBy 2 [(1, PushFrame \<lparr>Args = [VStr ''secret''], callName = ''card''\<rparr>), (2, CallParam 0)]
     demoSet = [Returned (VStr ''secret'')] \<and>
   seenBy 2 (alone 2 [(1, PushFrame \<lparr>Args = [VStr ''secret''], callName = ''card''\<rparr>),
                      (2, CallParam 0)])
     demoSet = [Returned VNil] \<and>
   seenBy 1 [(1, ResetUsed), (1, MarkUsed ''card''), (2, ResetUsed), (1, ReadUsed)] demoSet
     = [Done, Done, Names {}] \<and>
   seenBy 1 (alone 1 [(1, ResetUsed), (1, MarkUsed ''card''), (2, ResetUsed), (1, ReadUsed)]) demoSet
     = [Done, Done, Names {''card''}]"
  by (simp add: seenBy_def alone_def pushFrame_def popFrame_def markUsed_def demoSet_def
        param_def)

end
